theory Spec2Isabelle
  imports
    Complex_Main
    "HOL-Library.Sublist"
    "HOL-Library.Multiset"
    "HOL-Library.Product_Lexorder"
begin

section \<open>Data model\<close>

text \<open>
  JavaScript numbers that come out of a computation: a finite value, or one of the three
  non-finite values. Finite values are kept exact (rationals); rounding is not modelled.
  Numbers read from the JSON payload (percentages, counts, epochs) are always finite and are
  modelled by \<open>rat\<close> and \<open>int\<close> directly. An absent (\<open>undefined\<close>) field is \<open>None\<close>.
\<close>

datatype number = Finite rat | NaN | Infinity | NegInfinity

text \<open>
  The per-role tally object of the API payload (\<open>action.drep\<close>, \<open>action.spo\<close>,
  \<open>action.cc\<close>): every field is optional. The three \<open>Ada\<close> fields are the ones
  \<open>transformGovernanceAction\<close> adds.
\<close>

record VoteTally =
  yesPercent :: "rat option"
  noPercent :: "rat option"
  abstainPercent :: "rat option"
  yesLovelace :: "string option"
  noLovelace :: "string option"
  abstainLovelace :: "string option"
  yesCount :: "int option"
  noCount :: "int option"
  abstainCount :: "int option"
  yesAda :: "number option"
  noAda :: "number option"
  abstainAda :: "number option"

record ThresholdInfo =
  spoThreshold :: "rat option"

record GovernanceAction =
  hash :: string
  proposalId :: "string option"
  txHash :: "string option"
  title :: string
  type :: string
  status :: string
  constitutionality :: string
  drepYesPercent :: "rat option"
  drepNoPercent :: "rat option"
  drepAbstainPercent :: "rat option"
  drepYesAda :: "number option"
  drepNoAda :: "number option"
  drepAbstainAda :: "number option"
  spoYesPercent :: "rat option"
  spoNoPercent :: "rat option"
  spoAbstainPercent :: "rat option"
  spoYesAda :: "number option"
  spoNoAda :: "number option"
  spoAbstainAda :: "number option"
  ccYesPercent :: "rat option"
  ccNoPercent :: "rat option"
  ccAbstainPercent :: "rat option"
  ccYesCount :: "int option"
  ccNoCount :: "int option"
  ccAbstainCount :: "int option"
  totalYes :: "int option"
  totalNo :: "int option"
  totalAbstain :: "int option"
  submissionEpoch :: "int option"
  expiryEpoch :: "int option"
  threshold :: "ThresholdInfo option"
  votingStatus :: "string option"
  drep :: "VoteTally option"
  spo :: "VoteTally option"
  cc :: "VoteTally option"

record VoteRecord =
  voterType :: string
  voterId :: "string option"
  voterName :: "string option"
  drepId :: "string option"
  drepName :: "string option"
  vote :: string
  votingPower :: "string option"
  votingPowerAda :: "rat option"
  anchorUrl :: "string option"
  anchorHash :: "string option"
  votedAt :: "string option"

record GovernanceActionDetail = GovernanceAction +
  description :: "string option"
  rationale :: "string option"
  votes :: "VoteRecord list option"
  ccVotes :: "VoteRecord list option"


section \<open>Role eligibility: legacy overrides and not-applicable types\<close>

definition LEGACY_NON_APPLICABLE_DREP_ACTIONS :: "string list" where
  "LEGACY_NON_APPLICABLE_DREP_ACTIONS =
     [''gov_action1k2jertppnnndejjcglszfqq4yzw8evzrd2nt66rr6rqlz54xp0zsq05ecsn'',
      ''gov_action1286ft23r7jem825s4l0y5rn8sgam0tz2ce04l7a38qmnhp3l9a6qqn850dw'',
      ''gov_action1pvv5wmjqhwa4u85vu9f4ydmzu2mgt8n7et967ph2urhx53r70xusqnmm525'']"

definition LEGACY_NON_APPLICABLE_SPO_ACTIONS :: "string list" where
  "LEGACY_NON_APPLICABLE_SPO_ACTIONS =
     [''gov_action1k2jertppnnndejjcglszfqq4yzw8evzrd2nt66rr6rqlz54xp0zsq05ecsn'',
      ''gov_action1286ft23r7jem825s4l0y5rn8sgam0tz2ce04l7a38qmnhp3l9a6qqn850dw'']"

definition LEGACY_NON_APPLICABLE_CC_ACTIONS :: "string list" where
  "LEGACY_NON_APPLICABLE_CC_ACTIONS = []"

definition CC_NOT_APPLICABLE_TYPES :: "string list" where
  "CC_NOT_APPLICABLE_TYPES = [''No Confidence'', ''Update Committee'']"

definition SPO_NOT_APPLICABLE_TYPES :: "string list" where
  "SPO_NOT_APPLICABLE_TYPES =
     [''New Constitution'', ''Protocol Parameter Change'', ''Treasury Withdrawals'']"

text \<open>
  \<open>h.includes(actionId)\<close> is \<^term>\<open>sublist actionId h\<close>: the identifier occurs in
  \<open>h\<close> as a contiguous run. \<open>xs.some(p)\<close> is \<^const>\<open>list_ex\<close>.
\<close>

definition matchesAny :: "string list \<Rightarrow> string \<Rightarrow> bool" where
  "matchesAny ids h = list_ex (\<lambda>actionId. h = actionId \<or> sublist actionId h) ids"

definition isLegacyAction :: "string \<Rightarrow> bool" where
  "isLegacyAction h =
     matchesAny (LEGACY_NON_APPLICABLE_DREP_ACTIONS @ LEGACY_NON_APPLICABLE_SPO_ACTIONS
                  @ LEGACY_NON_APPLICABLE_CC_ACTIONS) h"

definition isCcNotApplicable :: "'a GovernanceAction_scheme \<Rightarrow> bool" where
  "isCcNotApplicable action =
     (if matchesAny LEGACY_NON_APPLICABLE_CC_ACTIONS (hash action) then True
      else if \<not> isLegacyAction (hash action) then type action \<in> set CC_NOT_APPLICABLE_TYPES
      else False)"

definition isDrepNotApplicable :: "'a GovernanceAction_scheme \<Rightarrow> bool" where
  "isDrepNotApplicable action =
     (if matchesAny LEGACY_NON_APPLICABLE_DREP_ACTIONS (hash action) then True else False)"

definition isSpoNotApplicable :: "'a GovernanceAction_scheme \<Rightarrow> bool" where
  "isSpoNotApplicable action =
     (if matchesAny LEGACY_NON_APPLICABLE_SPO_ACTIONS (hash action) then True
      else if \<not> isLegacyAction (hash action) then type action \<in> set SPO_NOT_APPLICABLE_TYPES
      else False)"


section \<open>Unit conversion\<close>

text \<open>\<open>x ?? d\<close> and, for a value whose only falsy form is \<open>undefined\<close>, \<open>x || d\<close>.\<close>

definition orElse :: "'a option \<Rightarrow> 'a \<Rightarrow> 'a" where
  "orElse x d = (case x of None \<Rightarrow> d | Some v \<Rightarrow> v)"

text \<open>\<open>x / 1_000_000\<close> on a JavaScript number.\<close>

definition perMillion :: "number \<Rightarrow> number" where
  "perMillion x =
     (case x of Finite q \<Rightarrow> Finite (q / 1000000) | NaN \<Rightarrow> NaN
      | Infinity \<Rightarrow> Infinity | NegInfinity \<Rightarrow> NegInfinity)"

definition isFinite :: "number \<Rightarrow> bool" where
  "isFinite x = (case x of Finite q \<Rightarrow> True | _ \<Rightarrow> False)"

text \<open>
  \<open>lovelaceToAdaNumber\<close>. The host's \<open>Number(string)\<close> conversion is the parameter
  \<open>toNumber\<close>; \<open>!lovelace\<close> holds for \<open>undefined\<close> and for the empty string.
\<close>

definition lovelaceToAdaNumber :: "(string \<Rightarrow> number) \<Rightarrow> string option \<Rightarrow> number" where
  "lovelaceToAdaNumber toNumber lovelace =
     (case lovelace of
        None \<Rightarrow> Finite 0
      | Some s \<Rightarrow>
          if s = [] then Finite 0
          else (let adaValue = perMillion (toNumber s)
                in if isFinite adaValue then adaValue else Finite 0))"


section \<open>Action record normalizer\<close>

definition transformGovernanceAction ::
    "(string \<Rightarrow> number) \<Rightarrow> GovernanceAction \<Rightarrow> GovernanceAction" where
  "transformGovernanceAction toNumber action =
     (let drepYesAda' = lovelaceToAdaNumber toNumber (Option.bind (drep action) yesLovelace);
          drepNoAda' = lovelaceToAdaNumber toNumber (Option.bind (drep action) noLovelace);
          drepAbstainAda' = lovelaceToAdaNumber toNumber (Option.bind (drep action) abstainLovelace);
          spoYesAda' = map_option (\<lambda>s. lovelaceToAdaNumber toNumber (yesLovelace s)) (spo action);
          spoNoAda' = map_option (\<lambda>s. lovelaceToAdaNumber toNumber (noLovelace s)) (spo action);
          spoAbstainAda' =
            map_option (\<lambda>s. lovelaceToAdaNumber toNumber (abstainLovelace s)) (spo action)
      in \<lparr> hash = hash action,
           proposalId = proposalId action,
           txHash = txHash action,
           title = (if title action = [] then ''Untitled Proposal'' else title action),
           type = type action,
           status = status action,
           constitutionality =
             (if constitutionality action = [] then ''Unspecified'' else constitutionality action),
           drepYesPercent = Some (orElse (Option.bind (drep action) yesPercent) 0),
           drepNoPercent = Some (orElse (Option.bind (drep action) noPercent) 0),
           drepAbstainPercent = Some (orElse (Option.bind (drep action) abstainPercent) 0),
           drepYesAda = Some drepYesAda',
           drepNoAda = Some drepNoAda',
           drepAbstainAda = Some drepAbstainAda',
           spoYesPercent = Option.bind (spo action) yesPercent,
           spoNoPercent = Option.bind (spo action) noPercent,
           spoAbstainPercent = Option.bind (spo action) abstainPercent,
           spoYesAda = spoYesAda',
           spoNoAda = spoNoAda',
           spoAbstainAda = spoAbstainAda',
           ccYesPercent = Option.bind (cc action) yesPercent,
           ccNoPercent = Option.bind (cc action) noPercent,
           ccAbstainPercent = Option.bind (cc action) abstainPercent,
           ccYesCount = Option.bind (cc action) yesCount,
           ccNoCount = Option.bind (cc action) noCount,
           ccAbstainCount = Option.bind (cc action) abstainCount,
           totalYes = Some (orElse (totalYes action) 0),
           totalNo = Some (orElse (totalNo action) 0),
           totalAbstain = Some (orElse (totalAbstain action) 0),
           submissionEpoch = Some (orElse (submissionEpoch action) 0),
           expiryEpoch = Some (orElse (expiryEpoch action) 0),
           threshold = threshold action,
           votingStatus = votingStatus action,
           drep = map_option
                    (\<lambda>d. d\<lparr>yesAda := Some drepYesAda', noAda := Some drepNoAda',
                            abstainAda := Some drepAbstainAda'\<rparr>) (drep action),
           spo = map_option
                   (\<lambda>s. s\<lparr>yesAda := spoYesAda', noAda := spoNoAda',
                           abstainAda := spoAbstainAda'\<rparr>) (spo action),
           cc = cc action \<rparr>)"


section \<open>Sorting\<close>

text \<open>
  \<open>Array.prototype.sort(compare)\<close>. The sort is stable, and for a consistent
  comparator its result is the one stable ordering of the array; insertion computes it.
  \<open>compare a b \<le> 0\<close> keeps \<open>a\<close> in front of \<open>b\<close> when \<open>a\<close> came first.
\<close>

fun insertBy :: "('a \<Rightarrow> 'a \<Rightarrow> int) \<Rightarrow> 'a \<Rightarrow> 'a list \<Rightarrow> 'a list" where
  "insertBy compare x [] = [x]"
| "insertBy compare x (y # ys) =
     (if compare x y \<le> 0 then x # y # ys else y # insertBy compare x ys)"

fun sortBy :: "('a \<Rightarrow> 'a \<Rightarrow> int) \<Rightarrow> 'a list \<Rightarrow> 'a list" where
  "sortBy compare [] = []"
| "sortBy compare (x # xs) = insertBy compare x (sortBy compare xs)"


section \<open>Filter, sort and priority engine\<close>

definition SHOWCASE_ORDER :: "string list" where
  "SHOWCASE_ORDER =
     [''NoConfidence'', ''UpdateCommittee'', ''NewConstitution'', ''HardForkInitiation'',
      ''ParameterChange'', ''Treasury'', ''InfoAction'']"

text \<open>
  Modelled from the spec: \<open>PROPOSAL_TYPES\<close> is exported by \<open>@/types/governance\<close>, which
  is not among the sources. The spec gives the fixed enumeration of proposal types:
  NoConfidence, UpdateCommittee, NewConstitution, HardForkInitiation, ParameterChange,
  Treasury, InfoAction.
\<close>

definition PROPOSAL_TYPES :: "string list" where
  "PROPOSAL_TYPES =
     [''NoConfidence'', ''UpdateCommittee'', ''NewConstitution'', ''HardForkInitiation'',
      ''ParameterChange'', ''Treasury'', ''InfoAction'']"

definition STATUS_OPTIONS :: "string list" where
  "STATUS_OPTIONS = [''Active'', ''Ratified'', ''Expired'', ''Approved'', ''Not approved'']"

definition compareActions :: "'a GovernanceAction_scheme \<Rightarrow> 'a GovernanceAction_scheme \<Rightarrow> int" where
  "compareActions a b =
     (let epochA = orElse (submissionEpoch a) 0;
          epochB = orElse (submissionEpoch b) 0
      in if epochA = epochB then orElse (expiryEpoch b) 0 - orElse (expiryEpoch a) 0
         else epochB - epochA)"

definition sortedActions :: "'a GovernanceAction_scheme list \<Rightarrow> 'a GovernanceAction_scheme list" where
  "sortedActions actions = sortBy compareActions actions"

text \<open>
  \<open>applySearch\<close>. The host's \<open>String.prototype.trim\<close> and
  \<open>String.prototype.toLowerCase\<close> are the parameters \<open>trim\<close> and \<open>toLowerCase\<close>;
  \<open>!searchQuery.trim()\<close> holds when the trimmed query is the empty string, and
  \<open>t.includes(q)\<close> is \<^term>\<open>sublist q t\<close>.
\<close>

definition applySearch ::
    "(string \<Rightarrow> string) \<Rightarrow> (string \<Rightarrow> string) \<Rightarrow> string
       \<Rightarrow> 'a GovernanceAction_scheme list \<Rightarrow> 'a GovernanceAction_scheme list" where
  "applySearch trim toLowerCase searchQuery list =
     (if trim searchQuery = [] then list
      else (let q = toLowerCase searchQuery
            in filter (\<lambda>action. sublist q (toLowerCase (title action))) list))"

text \<open>
  \<open>filteredActions\<close>, as a function of the sorted list, the selected types, the selected
  statuses and the search query (and of the two host string functions \<open>applySearch\<close>
  uses). The size of \<open>new Set(selectedTypes)\<close> is the number of distinct selected types;
  \<open>.filter(Boolean)\<close> drops the types for which \<open>find\<close> found no action.
\<close>

definition filteredActions ::
    "(string \<Rightarrow> string) \<Rightarrow> (string \<Rightarrow> string)
       \<Rightarrow> 'a GovernanceAction_scheme list \<Rightarrow> string list \<Rightarrow> string list \<Rightarrow> string
       \<Rightarrow> 'a GovernanceAction_scheme list" where
  "filteredActions trim toLowerCase sortedList selectedTypes selectedStatuses searchQuery =
     (if sortedList = [] then []
      else
        (let statusFiltered = filter (\<lambda>action. status action \<in> set selectedStatuses) sortedList;
             prioritized =
               map (\<lambda>t. find (\<lambda>action. type action = t) statusFiltered)
                 (filter (\<lambda>t. t \<in> set selectedTypes) SHOWCASE_ORDER);
             dedupedPrioritized = map the (filter (\<lambda>found. found \<noteq> None) prioritized)
         in if dedupedPrioritized \<noteq> [] then
              (if length (remdups selectedTypes) = length PROPOSAL_TYPES then
                 (let extras = filter (\<lambda>action. type action \<notin> set SHOWCASE_ORDER) statusFiltered
                  in applySearch trim toLowerCase searchQuery (dedupedPrioritized @ extras))
               else applySearch trim toLowerCase searchQuery dedupedPrioritized)
            else
              (let baseFiltered =
                     filter (\<lambda>action.
                        if type action \<notin> set SHOWCASE_ORDER
                        then length (remdups selectedTypes) = length PROPOSAL_TYPES
                        else type action \<in> set selectedTypes) statusFiltered
               in applySearch trim toLowerCase searchQuery baseFiltered)))"


section \<open>Proposal hash parsing\<close>

text \<open>\<open>s.split(c)\<close> for a one-character separator: the segments between the separators.\<close>

fun split :: "char \<Rightarrow> string \<Rightarrow> string list" where
  "split c [] = [[]]"
| "split c (x # xs) =
     (if x = c then [] # split c xs
      else (case split c xs of [] \<Rightarrow> [[x]] | s # ss \<Rightarrow> (x # s) # ss))"

text \<open>
  \<open>parseProposalHash\<close> (the detail page and the table carry the same function). The host's
  \<open>parseInt(string, 10)\<close> is the parameter \<open>parseInt\<close>, with \<open>None\<close> for \<open>NaN\<close>. The
  destructuring \<open>[txHash, certIndexStr]\<close> reads the first two segments.
\<close>

definition parseProposalHash :: "(string \<Rightarrow> int option) \<Rightarrow> string \<Rightarrow> (string \<times> int) option" where
  "parseProposalHash parseInt h =
     (if h = [] then None
      else
        (case (if CHR '':'' \<in> set h then
                 (case split CHR '':'' h of
                    txHashStr # certIndexStr # rest \<Rightarrow>
                      (case parseInt certIndexStr of
                         Some certIndex \<Rightarrow> if txHashStr \<noteq> [] then Some (txHashStr, certIndex) else None
                       | None \<Rightarrow> None)
                  | _ \<Rightarrow> None)
               else None) of
           Some parsed \<Rightarrow> Some parsed
         | None \<Rightarrow>
             (if CHR ''#'' \<in> set h then
                (case split CHR ''#'' h of
                   txHashStr # certIndexStr # rest \<Rightarrow>
                     (case parseInt certIndexStr of
                        Some certIndex \<Rightarrow> if txHashStr \<noteq> [] then Some (txHashStr, certIndex) else None
                      | None \<Rightarrow> None)
                 | _ \<Rightarrow> None)
              else None)))"


section \<open>Timeline aggregator\<close>

text \<open>A \<open>Date\<close> object: \<open>getTime\<close> is \<open>None\<close> (\<open>NaN\<close>) for an Invalid Date.\<close>

datatype Date = Date (getTime: "int option")

record VoteWithDate = VoteRecord +
  date :: "Date option"
  fallbackIndex :: nat

record TimelinePoint =
  label :: string
  yesCount :: int
  noCount :: int
  abstainCount :: int
  yesPower :: rat
  noPower :: rat
  abstainPower :: rat

definition allVotes :: "GovernanceActionDetail option \<Rightarrow> VoteRecord list" where
  "allVotes selectedAction =
     (case selectedAction of
        None \<Rightarrow> []
      | Some a \<Rightarrow> orElse (votes a) [] @ orElse (ccVotes a) [])"

definition roleFilteredVotes :: "string \<Rightarrow> VoteRecord list \<Rightarrow> VoteRecord list" where
  "roleFilteredVotes curveRoleFilter vs =
     (if curveRoleFilter = ''All'' then vs
      else filter (\<lambda>v. voterType v = curveRoleFilter) vs)"

text \<open>
  The \<open>map\<close> that attaches \<open>date\<close> and \<open>fallbackIndex\<close> to every vote. The host's
  \<open>new Date(string)\<close> is the parameter \<open>newDate\<close>; \<open>vote.votedAt\<close> is falsy when it is
  absent or empty.
\<close>

definition attachDates :: "(string \<Rightarrow> Date) \<Rightarrow> VoteRecord list \<Rightarrow> VoteWithDate list" where
  "attachDates newDate vs =
     map (\<lambda>(index, v).
            VoteRecord.extend v
              (VoteWithDate.fields
                 (case votedAt v of
                    None \<Rightarrow> None
                  | Some s \<Rightarrow> if s = [] then None else Some (newDate s))
                 index))
       (enumerate 0 vs)"

text \<open>
  The comparator of the timeline sort. A difference of two times of which one is \<open>NaN\<close> is
  \<open>NaN\<close>, which the sort reads as \<open>0\<close>.
\<close>

definition compareVotes :: "VoteWithDate \<Rightarrow> VoteWithDate \<Rightarrow> int" where
  "compareVotes a b =
     (case (date a, date b) of
        (Some da, Some db) \<Rightarrow>
          (case (getTime da, getTime db) of
             (Some ta, Some tb) \<Rightarrow> ta - tb
           | _ \<Rightarrow> 0)
      | (Some da, None) \<Rightarrow> - 1
      | (None, Some db) \<Rightarrow> 1
      | (None, None) \<Rightarrow> int (fallbackIndex a) - int (fallbackIndex b))"

definition votesWithDates :: "(string \<Rightarrow> Date) \<Rightarrow> VoteRecord list \<Rightarrow> VoteWithDate list" where
  "votesWithDates newDate vs = sortBy compareVotes (attachDates newDate vs)"

text \<open>Decimal digits of a number, for the label \<open>Vote n\<close>.\<close>

fun showNat :: "nat \<Rightarrow> string" where
  "showNat n =
     (if n < 10 then [char_of (48 + n)]
      else showNat (n div 10) @ [char_of (48 + n mod 10)])"

text \<open>
  The second \<open>map\<close>, which walks the sorted votes and updates the six running totals. The
  totals are carried in a \<open>TimelinePoint\<close> (the point emitted last, whose label is not
  read); \<open>index\<close> is the position in the sorted list. The host's \<open>toLocaleString\<close> is the
  parameter \<open>format\<close>.
\<close>

fun accumulate ::
    "(int \<Rightarrow> string) \<Rightarrow> TimelinePoint \<Rightarrow> nat \<Rightarrow> VoteWithDate list \<Rightarrow> TimelinePoint list" where
  "accumulate format totals index [] = []"
| "accumulate format totals index (v # rest) =
     (let power = orElse (votingPowerAda v) 0;
          totals' =
            (if vote v = ''Yes'' then
               totals\<lparr>yesCount := yesCount totals + 1, yesPower := yesPower totals + power\<rparr>
             else if vote v = ''No'' then
               totals\<lparr>noCount := noCount totals + 1, noPower := noPower totals + power\<rparr>
             else
               totals\<lparr>abstainCount := abstainCount totals + 1,
                       abstainPower := abstainPower totals + power\<rparr>);
          point =
            totals'\<lparr>label :=
              (case date v of
                 None \<Rightarrow> ''Vote '' @ showNat (index + 1)
               | Some d \<Rightarrow>
                   (case getTime d of
                      None \<Rightarrow> ''Vote '' @ showNat (index + 1)
                    | Some t \<Rightarrow> format t))\<rparr>
      in point # accumulate format totals' (index + 1) rest)"

definition zeroTotals :: TimelinePoint where
  "zeroTotals = \<lparr> label = [], yesCount = 0, noCount = 0, abstainCount = 0,
                  yesPower = 0, noPower = 0, abstainPower = 0 \<rparr>"

definition voteTimelineData ::
    "(string \<Rightarrow> Date) \<Rightarrow> (int \<Rightarrow> string) \<Rightarrow> string \<Rightarrow> VoteRecord list \<Rightarrow> TimelinePoint list" where
  "voteTimelineData newDate format curveRoleFilter vs =
     (let filtered = roleFilteredVotes curveRoleFilter vs
      in if filtered = [] then []
         else accumulate format zeroTotals 0 (votesWithDates newDate filtered))"


section \<open>Abstain-value derivation\<close>

text \<open>
  Modelled from the spec: \<open>deriveAbstainValue\<close> lives in \<open>@/lib/voteMath\<close>, which is not
  among the sources. The spec gives its policy: a missing operand counts as 0; when
  \<open>yesPercent + noPercent > 0\<close> the implied total is
  \<open>(yesValue + noValue) / (yesPercent + noPercent) * 100\<close> and the abstain value is
  \<open>total * abstainPercentOpt / 100\<close> when the abstain percentage is provided, else the
  complement \<open>100 - yesPercent - noPercent\<close> of the two percentages applied to the total;
  when the two percentages are zero or absent the value is 0; the result is floored at 0.
  The spec fixes no value for a negative \<open>yesPercent + noPercent\<close>; the model returns 0.
\<close>

definition deriveAbstainValue ::
    "rat option \<Rightarrow> rat option \<Rightarrow> rat option \<Rightarrow> rat option \<Rightarrow> rat option \<Rightarrow> rat" where
  "deriveAbstainValue yesValue yesPercent' noValue noPercent' abstainPercentOpt =
     (let yv = orElse yesValue 0; yp = orElse yesPercent' 0;
          nv = orElse noValue 0; np = orElse noPercent' 0
      in if yp + np > 0 then
           (let total = (yv + nv) / (yp + np) * 100
            in case abstainPercentOpt of
                 Some ap \<Rightarrow> max 0 (total * ap / 100)
               | None \<Rightarrow> max 0 (total * (100 - (yp + np)) / 100))
         else 0)"


section \<open>Predicates and measures used in the statements\<close>

subsection \<open>Sorting keys\<close>

text \<open>
  The order the table sort establishes: \<open>a\<close> may stand in front of \<open>b\<close> when its
  submission epoch is larger, or equal with an expiry epoch at least as large.
\<close>

definition actionKey :: "'a GovernanceAction_scheme \<Rightarrow> int \<times> int" where
  "actionKey a = (- orElse (submissionEpoch a) 0, - orElse (expiryEpoch a) 0)"

definition inEpochOrder :: "'a GovernanceAction_scheme \<Rightarrow> 'a GovernanceAction_scheme \<Rightarrow> bool" where
  "inEpochOrder a b \<longleftrightarrow>
     orElse (submissionEpoch a) 0 > orElse (submissionEpoch b) 0
     \<or> (orElse (submissionEpoch a) 0 = orElse (submissionEpoch b) 0
        \<and> orElse (expiryEpoch a) 0 \<ge> orElse (expiryEpoch b) 0)"

subsection \<open>Timeline\<close>

text \<open>
  A record of the timeline sort has a date when \<open>votedAt\<close> was present and not empty;
  \<open>timeOf\<close> is its time. \<open>validDates\<close> says that every such \<open>votedAt\<close> parses to a
  valid date, so that no comparison yields \<open>NaN\<close>.
\<close>

definition hasDate :: "VoteWithDate \<Rightarrow> bool" where
  "hasDate w = (date w \<noteq> None)"

definition timeOf :: "VoteWithDate \<Rightarrow> int" where
  "timeOf w = (case date w of None \<Rightarrow> 0 | Some d \<Rightarrow> orElse (getTime d) 0)"

definition validDates :: "(string \<Rightarrow> Date) \<Rightarrow> VoteRecord list \<Rightarrow> bool" where
  "validDates newDate vs =
     list_all (\<lambda>v. case votedAt v of None \<Rightarrow> True
                   | Some s \<Rightarrow> s = [] \<or> getTime (newDate s) \<noteq> None) vs"

definition voteKey :: "VoteWithDate \<Rightarrow> nat \<times> int" where
  "voteKey w = (if hasDate w then (0, timeOf w) else (1, int (fallbackIndex w)))"

text \<open>The vote kinds the walk distinguishes, and the totals of a list of votes.\<close>

definition isYes :: "'a VoteRecord_scheme \<Rightarrow> bool" where
  "isYes v = (vote v = ''Yes'')"

definition isNo :: "'a VoteRecord_scheme \<Rightarrow> bool" where
  "isNo v = (vote v = ''No'')"

definition isAbstain :: "'a VoteRecord_scheme \<Rightarrow> bool" where
  "isAbstain v = (vote v \<noteq> ''Yes'' \<and> vote v \<noteq> ''No'')"

definition powerOf :: "'a VoteRecord_scheme \<Rightarrow> rat" where
  "powerOf v = orElse (votingPowerAda v) 0"

definition countWhere :: "('a \<Rightarrow> bool) \<Rightarrow> 'a list \<Rightarrow> int" where
  "countWhere P xs = int (length (filter P xs))"

definition powerWhere :: "('a VoteRecord_scheme \<Rightarrow> bool) \<Rightarrow> 'a VoteRecord_scheme list \<Rightarrow> rat" where
  "powerWhere P xs = sum_list (map powerOf (filter P xs))"

text \<open>The six totals of a point are the totals of a list of votes, on top of a start.\<close>

definition totalsAre :: "TimelinePoint \<Rightarrow> TimelinePoint \<Rightarrow> 'a VoteRecord_scheme list \<Rightarrow> bool" where
  "totalsAre p start xs \<longleftrightarrow>
     yesCount p = yesCount start + countWhere isYes xs
   \<and> noCount p = noCount start + countWhere isNo xs
   \<and> abstainCount p = abstainCount start + countWhere isAbstain xs
   \<and> yesPower p = yesPower start + powerWhere isYes xs
   \<and> noPower p = noPower start + powerWhere isNo xs
   \<and> abstainPower p = abstainPower start + powerWhere isAbstain xs"

definition stepTotals :: "TimelinePoint \<Rightarrow> 'a VoteRecord_scheme \<Rightarrow> TimelinePoint" where
  "stepTotals totals v =
     (if vote v = ''Yes'' then
        totals\<lparr>yesCount := yesCount totals + 1, yesPower := yesPower totals + powerOf v\<rparr>
      else if vote v = ''No'' then
        totals\<lparr>noCount := noCount totals + 1, noPower := noPower totals + powerOf v\<rparr>
      else
        totals\<lparr>abstainCount := abstainCount totals + 1,
                abstainPower := abstainPower totals + powerOf v\<rparr>)"

definition pointLabel :: "(int \<Rightarrow> string) \<Rightarrow> nat \<Rightarrow> VoteWithDate \<Rightarrow> string" where
  "pointLabel format index v =
     (case date v of
        None \<Rightarrow> ''Vote '' @ showNat (index + 1)
      | Some d \<Rightarrow>
          (case getTime d of
             None \<Rightarrow> ''Vote '' @ showNat (index + 1)
           | Some t \<Rightarrow> format t))"

text \<open>The six fields of a point are the totals of a list of votes.\<close>

definition hasTotals :: "TimelinePoint \<Rightarrow> 'a VoteRecord_scheme list \<Rightarrow> bool" where
  "hasTotals p xs \<longleftrightarrow>
     yesCount p = countWhere isYes xs
   \<and> noCount p = countWhere isNo xs
   \<and> abstainCount p = countWhere isAbstain xs
   \<and> yesPower p = powerWhere isYes xs
   \<and> noPower p = powerWhere isNo xs
   \<and> abstainPower p = powerWhere isAbstain xs"

subsection \<open>Showcase representatives\<close>

text \<open>
  The first action of a type in a list, if there is one, and the representatives of a
  list: the first action of each showcase type that occurs, in showcase order.
\<close>

definition firstOfType :: "string \<Rightarrow> 'a GovernanceAction_scheme list \<Rightarrow> 'a GovernanceAction_scheme list" where
  "firstOfType t xs = (case find (\<lambda>a. type a = t) xs of None \<Rightarrow> [] | Some a \<Rightarrow> [a])"

definition representatives :: "'a GovernanceAction_scheme list \<Rightarrow> 'a GovernanceAction_scheme list" where
  "representatives xs = concat (map (\<lambda>t. firstOfType t xs) SHOWCASE_ORDER)"

subsection \<open>Normalizer\<close>

text \<open>An output field is present and carries the raw value, or 0 when the raw value is absent.\<close>

definition defaultsTo :: "'a::zero option \<Rightarrow> 'a option \<Rightarrow> bool" where
  "defaultsTo field raw \<longleftrightarrow> field = Some (case raw of None \<Rightarrow> 0 | Some x \<Rightarrow> x)"

subsection \<open>Abstain value\<close>

text \<open>
  The value the spec's formula gives when the abstain percentage is provided: the implied
  total \<open>(yesValue + noValue) / (yesPercent + noPercent) * 100\<close>, times the abstain
  percentage, over 100; missing operands count as 0.
\<close>

definition impliedAbstain :: "rat option \<Rightarrow> rat option \<Rightarrow> rat option \<Rightarrow> rat option \<Rightarrow> rat \<Rightarrow> rat" where
  "impliedAbstain yesValue yesPercent' noValue noPercent' abstainPercent' =
     ((orElse yesValue 0 + orElse noValue 0) / (orElse yesPercent' 0 + orElse noPercent' 0) * 100)
       * abstainPercent' / 100"

subsection \<open>Proposal hash\<close>

text \<open>
  The two parts the destructuring reads for a separator: the text before its first
  occurrence, and the text between its first and second occurrence (or the end). A form
  parses when the separator occurs, the first part is not empty and the second part is read
  as an integer.
\<close>

definition txPart :: "char \<Rightarrow> string \<Rightarrow> string" where
  "txPart sep h = takeWhile (\<lambda>c. c \<noteq> sep) h"

definition indexPart :: "char \<Rightarrow> string \<Rightarrow> string" where
  "indexPart sep h = takeWhile (\<lambda>c. c \<noteq> sep) (drop 1 (dropWhile (\<lambda>c. c \<noteq> sep) h))"

definition formParses :: "(string \<Rightarrow> int option) \<Rightarrow> char \<Rightarrow> string \<Rightarrow> bool" where
  "formParses parseInt sep h \<longleftrightarrow>
     sep \<in> set h \<and> txPart sep h \<noteq> [] \<and> parseInt (indexPart sep h) \<noteq> None"

definition formResult :: "(string \<Rightarrow> int option) \<Rightarrow> char \<Rightarrow> string \<Rightarrow> (string \<times> int) option" where
  "formResult parseInt sep h =
     map_option (\<lambda>certIndex. (txPart sep h, certIndex)) (parseInt (indexPart sep h))"

subsection \<open>Example data\<close>

text \<open>
  Stand-ins for the host's \<open>trim\<close> and \<open>toLowerCase\<close> in the examples, exact on ASCII
  text: the first strips tab, line feed, vertical tab, form feed, carriage return and
  space, the second maps the letters A to Z.
\<close>

definition asciiWhiteSpace :: "char \<Rightarrow> bool" where
  "asciiWhiteSpace c = ((of_char c :: nat) \<in> {9, 10, 11, 12, 13, 32})"

definition asciiTrim :: "string \<Rightarrow> string" where
  "asciiTrim s = rev (dropWhile asciiWhiteSpace (rev (dropWhile asciiWhiteSpace s)))"

definition asciiLowerCase :: "string \<Rightarrow> string" where
  "asciiLowerCase s =
     map (\<lambda>c. if 65 \<le> (of_char c :: nat) \<and> (of_char c :: nat) \<le> 90
              then char_of ((of_char c :: nat) + 32) else c) s"

definition exampleParseInt :: "string \<Rightarrow> int option" where
  "exampleParseInt s =
     (if s = ''0'' then Some 0 else if s = ''7'' then Some 7 else if s = ''12'' then Some 12
      else None)"


definition exampleToNumber :: "string \<Rightarrow> number" where
  "exampleToNumber s =
     (if s = ''2500000'' then Finite 2500000
      else if s = ''Infinity'' then Infinity
      else NaN)"


definition exampleVote :: VoteRecord where
  "exampleVote = \<lparr> voterType = ''DRep'', voterId = None, voterName = None, drepId = None,
     drepName = None, vote = ''Yes'', votingPower = None, votingPowerAda = None,
     anchorUrl = None, anchorHash = None, votedAt = None \<rparr>"

definition exampleNewDate :: "string \<Rightarrow> Date" where
  "exampleNewDate s =
     (if s = ''2025-03-01T10:00:00Z'' then Date (Some 1740823200000)
      else if s = ''2025-03-02T10:00:00Z'' then Date (Some 1740909600000)
      else Date None)"

definition exampleFormat :: "int \<Rightarrow> string" where
  "exampleFormat t = (if t = 1740823200000 then ''Mar 1, 10:00 AM'' else ''Mar 2, 10:00 AM'')"


definition exampleAction :: GovernanceAction where
  "exampleAction = \<lparr> hash = ''abc:0'', proposalId = None, txHash = None, title = ''T'',
     type = ''Info Action'', status = ''Active'', constitutionality = '''',
     drepYesPercent = None, drepNoPercent = None, drepAbstainPercent = None,
     drepYesAda = None, drepNoAda = None, drepAbstainAda = None,
     spoYesPercent = None, spoNoPercent = None, spoAbstainPercent = None,
     spoYesAda = None, spoNoAda = None, spoAbstainAda = None,
     ccYesPercent = None, ccNoPercent = None, ccAbstainPercent = None,
     ccYesCount = None, ccNoCount = None, ccAbstainCount = None,
     totalYes = None, totalNo = None, totalAbstain = None,
     submissionEpoch = None, expiryEpoch = None, threshold = None, votingStatus = None,
     drep = None, spo = None, cc = None \<rparr>"

definition exampleVotes :: "VoteRecord list" where
  "exampleVotes =
     [exampleVote\<lparr>vote := ''Abstain'', votingPowerAda := Some 2\<rparr>,
      exampleVote\<lparr>vote := ''No'', votingPowerAda := Some 5,
                   votedAt := Some ''2025-03-02T10:00:00Z''\<rparr>,
      exampleVote\<lparr>vote := ''Yes'', votingPowerAda := Some 10,
                   votedAt := Some ''2025-03-01T10:00:00Z''\<rparr>,
      exampleVote\<lparr>voterType := ''CC'', vote := ''Yes''\<rparr>]"

definition undatedThenDated :: "VoteRecord list" where
  "undatedThenDated =
     [exampleVote,
      exampleVote\<lparr>votedAt := Some ''2025-03-01T10:00:00Z''\<rparr>]"

definition negativePowerVotes :: "VoteRecord list" where
  "negativePowerVotes =
     [exampleVote\<lparr>vote := ''Yes'', votingPowerAda := Some 5,
                   votedAt := Some ''2025-03-01T10:00:00Z''\<rparr>,
      exampleVote\<lparr>vote := ''Yes'', votingPowerAda := Some (- 2),
                   votedAt := Some ''2025-03-02T10:00:00Z''\<rparr>]"

definition exampleActions :: "GovernanceAction list" where
  "exampleActions =
     [exampleAction\<lparr>title := ''A5'', type := ''Treasury'', submissionEpoch := Some 5\<rparr>,
      exampleAction\<lparr>title := ''B10'', type := ''InfoAction'', submissionEpoch := Some 10\<rparr>,
      exampleAction\<lparr>title := ''A1'', type := ''Treasury'', submissionEpoch := Some 1\<rparr>]"

definition mixedActions :: "GovernanceAction list" where
  "mixedActions =
     exampleActions @
     [exampleAction\<lparr>title := ''O3'', type := ''Other'', submissionEpoch := Some 3\<rparr>,
      exampleAction\<lparr>title := ''O7'', type := ''Other'', submissionEpoch := Some 7\<rparr>]"

definition reorderedTypes :: "string list" where
  "reorderedTypes =
     [''InfoAction'', ''Treasury'', ''ParameterChange'', ''HardForkInitiation'',
      ''NewConstitution'', ''UpdateCommittee'', ''NoConfidence'']"

definition emptyTally :: VoteTally where
  "emptyTally = \<lparr> yesPercent = None, noPercent = None, abstainPercent = None,
     yesLovelace = None, noLovelace = None, abstainLovelace = None,
     yesCount = None, noCount = None, abstainCount = None,
     yesAda = None, noAda = None, abstainAda = None \<rparr>"


section \<open>Role eligibility\<close>

lemma matchesAny_append: "matchesAny (xs @ ys) h \<longleftrightarrow> matchesAny xs h \<or> matchesAny ys h"
  by (simp add: matchesAny_def)

text \<open>
  Claim C4. An action whose hash equals the legacy identifier
  \<open>gov_action1k2je...05ecsn\<close>, or contains it, is not applicable for DReps and not
  applicable for SPOs, whatever its proposal type: the legacy lists are consulted before
  any type.
\<close>

theorem legacy_hash_overrides:
  assumes "hash action = ''gov_action1k2jertppnnndejjcglszfqq4yzw8evzrd2nt66rr6rqlz54xp0zsq05ecsn''
         \<or> sublist ''gov_action1k2jertppnnndejjcglszfqq4yzw8evzrd2nt66rr6rqlz54xp0zsq05ecsn'' (hash action)"
  shows "isDrepNotApplicable action \<and> isSpoNotApplicable action"
  using assms
  by (auto simp: isDrepNotApplicable_def isSpoNotApplicable_def matchesAny_def
        LEGACY_NON_APPLICABLE_DREP_ACTIONS_def LEGACY_NON_APPLICABLE_SPO_ACTIONS_def)

theorem legacy_hash_overrides_witness:
  "isDrepNotApplicable (exampleAction\<lparr>hash := ''tx'' @ ''gov_action1k2jertppnnndejjcglszfqq4yzw8evzrd2nt66rr6rqlz54xp0zsq05ecsn'' @ ''#0'', type := ''Info Action''\<rparr>)
   \<and> isSpoNotApplicable (exampleAction\<lparr>hash := ''tx'' @ ''gov_action1k2jertppnnndejjcglszfqq4yzw8evzrd2nt66rr6rqlz54xp0zsq05ecsn'' @ ''#0'', type := ''Info Action''\<rparr>)"
proof -
  have "sublist ''gov_action1k2jertppnnndejjcglszfqq4yzw8evzrd2nt66rr6rqlz54xp0zsq05ecsn''
          (''tx'' @ ''gov_action1k2jertppnnndejjcglszfqq4yzw8evzrd2nt66rr6rqlz54xp0zsq05ecsn'' @ ''#0'')"
    unfolding sublist_def by blast
  then show ?thesis
    by (intro legacy_hash_overrides) simp
qed

text \<open>
  Claim C5. For an action on no legacy list, the Constitutional Committee is not applicable
  exactly for the types \<open>No Confidence\<close> and \<open>Update Committee\<close>, SPOs are not
  applicable exactly for \<open>New Constitution\<close>, \<open>Protocol Parameter Change\<close> and
  \<open>Treasury Withdrawals\<close>, and DReps are always applicable.
\<close>

theorem type_based_not_applicable:
  assumes "\<not> isLegacyAction (hash action)"
  shows "(isCcNotApplicable action \<longleftrightarrow>
            type action = ''No Confidence'' \<or> type action = ''Update Committee'')
       \<and> (isSpoNotApplicable action \<longleftrightarrow>
            type action = ''New Constitution'' \<or> type action = ''Protocol Parameter Change''
            \<or> type action = ''Treasury Withdrawals'')
       \<and> \<not> isDrepNotApplicable action"
proof -
  from assms have d: "\<not> matchesAny LEGACY_NON_APPLICABLE_DREP_ACTIONS (hash action)"
    and s: "\<not> matchesAny LEGACY_NON_APPLICABLE_SPO_ACTIONS (hash action)"
    and c: "\<not> matchesAny LEGACY_NON_APPLICABLE_CC_ACTIONS (hash action)"
    by (simp_all add: isLegacyAction_def matchesAny_append)
  show ?thesis
    using assms d s c
    by (auto simp: isCcNotApplicable_def isSpoNotApplicable_def isDrepNotApplicable_def
          CC_NOT_APPLICABLE_TYPES_def SPO_NOT_APPLICABLE_TYPES_def)
qed

lemma not_legacy_example: "\<not> isLegacyAction ''abc:0''"
  by (simp add: sublist_Cons_right isLegacyAction_def matchesAny_def LEGACY_NON_APPLICABLE_DREP_ACTIONS_def
        LEGACY_NON_APPLICABLE_SPO_ACTIONS_def LEGACY_NON_APPLICABLE_CC_ACTIONS_def)

theorem type_based_not_applicable_witness:
  "\<not> isLegacyAction (hash (exampleAction\<lparr>type := ''No Confidence''\<rparr>))
   \<and> isCcNotApplicable (exampleAction\<lparr>type := ''No Confidence''\<rparr>)
   \<and> \<not> isSpoNotApplicable (exampleAction\<lparr>type := ''No Confidence''\<rparr>)
   \<and> \<not> isDrepNotApplicable (exampleAction\<lparr>type := ''No Confidence''\<rparr>)"
proof -
  have h: "\<not> isLegacyAction (hash (exampleAction\<lparr>type := ''No Confidence''\<rparr>))"
    by (simp add: exampleAction_def not_legacy_example)
  from type_based_not_applicable [OF h] h show ?thesis
    by simp
qed


section \<open>The sort is the stable sort by key\<close>

lemma insertBy_insort_key:
  assumes "\<forall>y\<in>set ys. cmp x y \<le> 0 \<longleftrightarrow> f x \<le> f y"
  shows "insertBy cmp x ys = insort_key f x ys"
  using assms by (induction ys) auto

lemma set_insertBy: "set (insertBy cmp x ys) = insert x (set ys)"
  by (induction ys) auto

lemma set_sortBy: "set (sortBy cmp xs) = set xs"
  by (induction xs) (simp_all add: set_insertBy)

lemma sortBy_sort_key:
  assumes "\<forall>x\<in>set xs. \<forall>y\<in>set xs. cmp x y \<le> 0 \<longleftrightarrow> f x \<le> f y"
  shows "sortBy cmp xs = sort_key f xs"
  using assms
proof (induction xs)
  case Nil
  then show ?case by simp
next
  case (Cons x xs)
  then have ih: "sortBy cmp xs = sort_key f xs" by simp
  have "insertBy cmp x (sort_key f xs) = insort_key f x (sort_key f xs)"
    by (rule insertBy_insort_key) (use Cons.prems in simp)
  with ih show ?case by simp
qed

lemma mset_insertBy: "mset (insertBy cmp x ys) = add_mset x (mset ys)"
  by (induction ys) auto

lemma mset_sortBy: "mset (sortBy cmp xs) = mset xs"
  by (induction xs) (simp_all add: mset_insertBy)

lemma insort_key_append_left:
  assumes "\<forall>b\<in>set bs. f x \<le> f b"
  shows "insort_key f x (as @ bs) = insort_key f x as @ bs"
  using assms
proof (induction as)
  case Nil
  then show ?case by (cases bs) auto
next
  case (Cons a as)
  then show ?case by simp
qed

lemma insort_key_append_right:
  assumes "\<forall>a\<in>set as. f a < f x"
  shows "insort_key f x (as @ bs) = as @ insort_key f x bs"
  using assms by (induction as) auto

lemma sort_key_partition:
  assumes "\<forall>x\<in>set xs. \<forall>y\<in>set xs. P x \<and> \<not> P y \<longrightarrow> f x < f y"
  shows "sort_key f xs = sort_key f (filter P xs) @ sort_key f (filter (\<lambda>x. \<not> P x) xs)"
  using assms
proof (induction xs)
  case Nil
  then show ?case by simp
next
  case (Cons x xs)
  then have ih: "sort_key f xs = sort_key f (filter P xs) @ sort_key f (filter (\<lambda>x. \<not> P x) xs)"
    by simp
  show ?case
  proof (cases "P x")
    case True
    have "\<forall>b\<in>set (sort_key f (filter (\<lambda>x. \<not> P x) xs)). f x \<le> f b"
      using Cons.prems True by (auto simp: less_imp_le)
    then show ?thesis using True ih by (simp add: insort_key_append_left)
  next
    case False
    have "\<forall>a\<in>set (sort_key f (filter P xs)). f a < f x"
      using Cons.prems False by auto
    then show ?thesis using False ih by (simp add: insort_key_append_right)
  qed
qed

lemma insort_key_cong_order:
  assumes "\<forall>y\<in>set ys. f x \<le> f y \<longleftrightarrow> g x \<le> g y"
  shows "insort_key f x ys = insort_key g x ys"
  using assms by (induction ys) auto

lemma sort_key_cong_order:
  assumes "\<forall>x\<in>set xs. \<forall>y\<in>set xs. f x \<le> f y \<longleftrightarrow> g x \<le> g y"
  shows "sort_key f xs = sort_key g xs"
  using assms
proof (induction xs)
  case Nil
  then show ?case by simp
next
  case (Cons x xs)
  then have ih: "sort_key f xs = sort_key g xs" by simp
  have "insort_key f x (sort_key g xs) = insort_key g x (sort_key g xs)"
    by (rule insort_key_cong_order) (use Cons.prems in simp)
  with ih show ?case by simp
qed


section \<open>Table sort\<close>

lemma compareActions_key: "compareActions a b \<le> 0 \<longleftrightarrow> actionKey a \<le> actionKey b"
  by (auto simp: compareActions_def actionKey_def Let_def less_eq_prod_def)

lemma sortedActions_sort_key: "sortedActions actions = sort_key actionKey actions"
  unfolding sortedActions_def by (rule sortBy_sort_key) (simp add: compareActions_key)

lemma inEpochOrder_key: "inEpochOrder a b \<longleftrightarrow> actionKey a \<le> actionKey b"
  by (auto simp: inEpochOrder_def actionKey_def less_eq_prod_def)

lemma sortedActions_perm: "mset (sortedActions actions) = mset actions"
  by (simp add: sortedActions_sort_key)

lemma sortedActions_sorted: "sorted_wrt inEpochOrder (sortedActions actions)"
proof -
  have "sorted (map actionKey (sort_key actionKey actions))"
    by (rule sorted_sort_key)
  then show ?thesis
    by (simp add: sortedActions_sort_key sorted_map inEpochOrder_key [abs_def])
qed

lemma sortedActions_stable:
  fixes actions :: "'a GovernanceAction_scheme list"
  shows "filter (\<lambda>a. orElse (submissionEpoch a) 0 = s \<and> orElse (expiryEpoch a) 0 = e)
           (sortedActions actions)
       = filter (\<lambda>a. orElse (submissionEpoch a) 0 = s \<and> orElse (expiryEpoch a) 0 = e) actions"
proof -
  have eq: "(\<lambda>a::'a GovernanceAction_scheme.
               orElse (submissionEpoch a) 0 = s \<and> orElse (expiryEpoch a) 0 = e)
          = (\<lambda>a. actionKey a = (- s, - e))"
    by (auto simp: actionKey_def)
  show ?thesis by (simp only: eq sortedActions_sort_key sort_key_stable)
qed

text \<open>
  Claim C6. \<open>sortedActions\<close> returns a permutation of its input, ordered by submission
  epoch descending and, among equal submission epochs, by expiry epoch descending; any two
  actions are comparable in that order; and the actions that agree on both epochs appear
  in the output in the order they had in the input (the sort is stable). The result is a
  function of the input alone.
\<close>

theorem sortedActions_stable_sort:
  fixes actions :: "'a GovernanceAction_scheme list"
  shows "mset (sortedActions actions) = mset actions
   \<and> sorted_wrt inEpochOrder (sortedActions actions)
   \<and> (\<forall>a b :: 'a GovernanceAction_scheme. inEpochOrder a b \<or> inEpochOrder b a)
   \<and> (\<forall>s e. filter (\<lambda>a. orElse (submissionEpoch a) 0 = s \<and> orElse (expiryEpoch a) 0 = e)
                (sortedActions actions)
            = filter (\<lambda>a. orElse (submissionEpoch a) 0 = s \<and> orElse (expiryEpoch a) 0 = e) actions)"
proof -
  have total: "inEpochOrder a b \<or> inEpochOrder b a" for a b :: "'a GovernanceAction_scheme"
    by (auto simp: inEpochOrder_def)
  from sortedActions_perm sortedActions_sorted total sortedActions_stable show ?thesis
    by (intro conjI allI)
qed


section \<open>Timeline sort\<close>

lemma map_enumerate_snd:
  assumes "\<And>i v. h (G i v) = f v"
  shows "map h (map (\<lambda>(i, v). G i v) (enumerate n vs)) = map f vs"
  by (induction vs arbitrary: n) (simp_all add: assms)

lemma map_enumerate_fst:
  assumes "\<And>i v. h (G i v) = i"
  shows "map h (map (\<lambda>(i, v). G i v) (enumerate n vs)) = [n..<n + length vs]"
proof -
  have "map h (map (\<lambda>(i, v). G i v) (enumerate n vs)) = map fst (enumerate n vs)"
    by (simp add: assms case_prod_unfold comp_def)
  then show ?thesis by (simp add: map_fst_enumerate)
qed

lemma fallbackIndex_attachDates:
  "map fallbackIndex (attachDates newDate vs) = [0..<length vs]"
  unfolding attachDates_def
  by (subst map_enumerate_fst) (simp_all add: VoteRecord.defs VoteWithDate.defs)

lemma truncate_attachDates:
  "map VoteRecord.truncate (attachDates newDate vs) = vs"
proof -
  have "map VoteRecord.truncate (attachDates newDate vs) = map (\<lambda>v. v) vs"
    unfolding attachDates_def
    by (rule map_enumerate_snd) (simp add: VoteRecord.defs VoteWithDate.defs)
  then show ?thesis by simp
qed

lemma date_attachDates:
  "map date (attachDates newDate vs)
     = map (\<lambda>v. case votedAt v of None \<Rightarrow> None
                | Some s \<Rightarrow> if s = [] then None else Some (newDate s)) vs"
  unfolding attachDates_def
  by (rule map_enumerate_snd) (simp add: VoteRecord.defs VoteWithDate.defs)

lemma valid_attachDates:
  assumes "validDates newDate vs" and "w \<in> set (attachDates newDate vs)" and "date w = Some d"
  shows "getTime d \<noteq> None"
proof -
  from assms(2,3) have "Some d \<in> set (map date (attachDates newDate vs))"
    by force
  then obtain v where v: "v \<in> set vs"
    and d: "Some d = (case votedAt v of None \<Rightarrow> None
                | Some s \<Rightarrow> if s = [] then None else Some (newDate s))"
    unfolding date_attachDates by auto
  from assms(1) v have "case votedAt v of None \<Rightarrow> True
                   | Some s \<Rightarrow> s = [] \<or> getTime (newDate s) \<noteq> None"
    by (simp add: validDates_def list_all_iff)
  with d show ?thesis by (auto split: option.splits if_splits)
qed

lemma compareVotes_key:
  assumes "\<forall>d. date a = Some d \<longrightarrow> getTime d \<noteq> None"
      and "\<forall>d. date b = Some d \<longrightarrow> getTime d \<noteq> None"
  shows "compareVotes a b \<le> 0 \<longleftrightarrow> voteKey a \<le> voteKey b"
  using assms
  by (auto simp: compareVotes_def voteKey_def hasDate_def timeOf_def orElse_def less_eq_prod_def
           split: option.splits)

lemma votesWithDates_sort_key:
  assumes "validDates newDate vs"
  shows "votesWithDates newDate vs = sort_key voteKey (attachDates newDate vs)"
  unfolding votesWithDates_def
proof (rule sortBy_sort_key, intro ballI)
  fix a b assume "a \<in> set (attachDates newDate vs)" "b \<in> set (attachDates newDate vs)"
  then show "compareVotes a b \<le> 0 \<longleftrightarrow> voteKey a \<le> voteKey b"
    using valid_attachDates [OF assms] by (intro compareVotes_key) blast+
qed

lemma undated_sorted:
  "sorted (map voteKey (filter (\<lambda>w. \<not> hasDate w) (attachDates newDate vs)))"
proof -
  have "sorted (map fallbackIndex (attachDates newDate vs))"
    by (simp add: fallbackIndex_attachDates)
  then have "sorted_wrt (\<lambda>a b. fallbackIndex a \<le> fallbackIndex b) (attachDates newDate vs)"
    by (simp add: sorted_map)
  then have "sorted_wrt (\<lambda>a b. fallbackIndex a \<le> fallbackIndex b)
               (filter (\<lambda>w. \<not> hasDate w) (attachDates newDate vs))"
    by (rule sorted_wrt_filter)
  then have "sorted_wrt (\<lambda>a b. voteKey a \<le> voteKey b)
               (filter (\<lambda>w. \<not> hasDate w) (attachDates newDate vs))"
    by (rule sorted_wrt_mono_rel [rotated]) (auto simp: voteKey_def less_eq_prod_def)
  then show ?thesis by (simp add: sorted_map)
qed

text \<open>
  Claim C1, with the order the code gives. When every timestamp that is present parses to a
  valid date, the timeline sort returns a permutation of the role-filtered records (each
  with its date and its original index attached): first the records with a timestamp, in
  ascending order of time and, for equal times, in their original order; after them the
  records without a timestamp, in their original order.
\<close>

theorem timeline_sort_order:
  assumes "validDates newDate vs"
  shows "mset (votesWithDates newDate vs) = mset (attachDates newDate vs)
       \<and> votesWithDates newDate vs
           = sort_key timeOf (filter hasDate (attachDates newDate vs))
             @ filter (\<lambda>w. \<not> hasDate w) (attachDates newDate vs)
       \<and> sorted (map timeOf (filter hasDate (votesWithDates newDate vs)))
       \<and> filter (\<lambda>w. \<not> hasDate w) (votesWithDates newDate vs)
           = filter (\<lambda>w. \<not> hasDate w) (attachDates newDate vs)
       \<and> map fallbackIndex (attachDates newDate vs) = [0..<length vs]
       \<and> map VoteRecord.truncate (attachDates newDate vs) = vs
       \<and> map date (attachDates newDate vs)
           = map (\<lambda>v. case votedAt v of None \<Rightarrow> None
                      | Some s \<Rightarrow> if s = [] then None else Some (newDate s)) vs"
proof -
  let ?ws = "attachDates newDate vs"
  have key: "votesWithDates newDate vs = sort_key voteKey ?ws"
    by (rule votesWithDates_sort_key [OF assms])
  have "sort_key voteKey ?ws
      = sort_key voteKey (filter hasDate ?ws) @ sort_key voteKey (filter (\<lambda>w. \<not> hasDate w) ?ws)"
    by (rule sort_key_partition) (auto simp: voteKey_def less_prod_def)
  moreover have "sort_key voteKey (filter hasDate ?ws) = sort_key timeOf (filter hasDate ?ws)"
    by (rule sort_key_cong_order) (auto simp: voteKey_def less_eq_prod_def)
  moreover have "sort_key voteKey (filter (\<lambda>w. \<not> hasDate w) ?ws) = filter (\<lambda>w. \<not> hasDate w) ?ws"
    by (rule sort_key_id_if_sorted) (rule undated_sorted)
  ultimately have split: "votesWithDates newDate vs
           = sort_key timeOf (filter hasDate ?ws) @ filter (\<lambda>w. \<not> hasDate w) ?ws"
    using key by simp
  have perm: "mset (votesWithDates newDate vs) = mset ?ws"
    by (simp add: key)
  have dated: "filter hasDate (votesWithDates newDate vs) = sort_key timeOf (filter hasDate ?ws)"
    unfolding split by (simp add: filter_id_conv)
  have asc: "sorted (map timeOf (filter hasDate (votesWithDates newDate vs)))"
    unfolding dated by (rule sorted_sort_key)
  have undated: "filter (\<lambda>w. \<not> hasDate w) (votesWithDates newDate vs)
                   = filter (\<lambda>w. \<not> hasDate w) ?ws"
    unfolding split by simp
  show ?thesis
    using perm split asc undated fallbackIndex_attachDates truncate_attachDates
      date_attachDates
    by (intro conjI)
qed

lemmas timeline_eval =
  votesWithDates_def attachDates_def enumerate_eq_zip compareVotes_def
  exampleVote_def exampleNewDate_def VoteRecord.defs VoteWithDate.defs hasDate_def upt_rec

theorem timeline_sort_order_witness:
  "validDates exampleNewDate exampleVotes
   \<and> map fallbackIndex (votesWithDates exampleNewDate exampleVotes) = [2, 1, 0, 3]"
proof -
  have valid: "validDates exampleNewDate exampleVotes"
    by (simp add: validDates_def exampleVotes_def exampleVote_def exampleNewDate_def)
  from timeline_sort_order [OF valid]
  have "votesWithDates exampleNewDate exampleVotes
          = sort_key timeOf (filter hasDate (attachDates exampleNewDate exampleVotes))
            @ filter (\<lambda>w. \<not> hasDate w) (attachDates exampleNewDate exampleVotes)"
    by blast
  then have "map fallbackIndex (votesWithDates exampleNewDate exampleVotes) = [2, 1, 0, 3]"
    by (simp add: timeline_eval exampleVotes_def timeOf_def orElse_def)
  with valid show ?thesis by simp
qed

text \<open>
  The claim as stated fails: a record without a timestamp that comes first in the input is
  placed after the record with a timestamp.
\<close>

theorem timeline_undated_first_counterexample:
  "map (\<lambda>w. (fallbackIndex w, hasDate w)) (votesWithDates exampleNewDate undatedThenDated)
     = [(1, True), (0, False)]"
  by (simp add: timeline_eval undatedThenDated_def)


section \<open>Timeline totals\<close>

lemma length_accumulate: "length (accumulate format totals index xs) = length xs"
  by (induction xs arbitrary: totals index) (simp_all add: Let_def)

lemma totalsAre_Nil: "totalsAre p p []"
  by (simp add: totalsAre_def countWhere_def powerWhere_def)

lemma accumulate_Cons:
  "accumulate format totals index (v # xs)
     = (stepTotals totals v)\<lparr>label := pointLabel format index v\<rparr>
       # accumulate format (stepTotals totals v) (index + 1) xs"
  by (simp add: Let_def stepTotals_def powerOf_def pointLabel_def del: showNat.simps)

lemma totalsAre_label [simp]: "totalsAre (p\<lparr>label := l\<rparr>) start xs = totalsAre p start xs"
  by (simp add: totalsAre_def)

lemma totalsAre_step:
  assumes "totalsAre p (stepTotals totals v) xs"
  shows "totalsAre p totals (v # xs)"
  using assms
  by (auto simp: totalsAre_def stepTotals_def countWhere_def powerWhere_def
        isYes_def isNo_def isAbstain_def)

lemma accumulate_nth:
  assumes "i < length xs"
  shows "totalsAre (accumulate format totals index xs ! i) totals (take (Suc i) xs)"
  using assms
proof (induction xs arbitrary: totals index i)
  case Nil
  then show ?case by simp
next
  case (Cons v xs)
  define l where "l = pointLabel format index v"
  have unfold: "accumulate format totals index (v # xs)
        = (stepTotals totals v)\<lparr>label := l\<rparr> # accumulate format (stepTotals totals v) (index + 1) xs"
    unfolding l_def by (rule accumulate_Cons)
  show ?case
  proof (cases i)
    case 0
    have "totalsAre ((stepTotals totals v)\<lparr>label := l\<rparr>) totals [v]"
      by (rule totalsAre_step) (simp add: totalsAre_Nil)
    then show ?thesis by (simp only: 0 unfold nth_Cons_0 take_Suc_Cons take_0)
  next
    case (Suc j)
    with Cons.prems have j: "j < length xs" by simp
    have "totalsAre (accumulate format (stepTotals totals v) (index + 1) xs ! j) totals
            (v # take (Suc j) xs)"
      by (rule totalsAre_step) (rule Cons.IH [OF j])
    then show ?thesis by (simp only: Suc unfold nth_Cons_Suc take_Suc_Cons)
  qed
qed

text \<open>Monotonicity along the sequence.\<close>

lemma accumulate_counts_ge:
  assumes "p \<in> set (accumulate format totals index xs)"
  shows "yesCount totals \<le> yesCount p \<and> noCount totals \<le> noCount p
       \<and> abstainCount totals \<le> abstainCount p"
  using assms
proof (induction xs arbitrary: totals index)
  case Nil
  then show ?case by simp
next
  case (Cons v xs)
  define l where "l = pointLabel format index v"
  have unfold: "accumulate format totals index (v # xs)
        = (stepTotals totals v)\<lparr>label := l\<rparr> # accumulate format (stepTotals totals v) (index + 1) xs"
    unfolding l_def by (rule accumulate_Cons)
  have step: "yesCount totals \<le> yesCount (stepTotals totals v)
            \<and> noCount totals \<le> noCount (stepTotals totals v)
            \<and> abstainCount totals \<le> abstainCount (stepTotals totals v)"
    by (simp add: stepTotals_def)
  from Cons.prems unfold consider "p = (stepTotals totals v)\<lparr>label := l\<rparr>"
    | "p \<in> set (accumulate format (stepTotals totals v) (index + 1) xs)"
    by auto
  then show ?case
  proof cases
    case 1
    with step show ?thesis by simp
  next
    case 2
    from Cons.IH [OF 2] step show ?thesis by linarith
  qed
qed

lemma accumulate_counts_sorted:
  "sorted (map yesCount (accumulate format totals index xs))
   \<and> sorted (map noCount (accumulate format totals index xs))
   \<and> sorted (map abstainCount (accumulate format totals index xs))"
proof (induction xs arbitrary: totals index)
  case Nil
  then show ?case by simp
next
  case (Cons v xs)
  define l where "l = pointLabel format index v"
  have unfold: "accumulate format totals index (v # xs)
        = (stepTotals totals v)\<lparr>label := l\<rparr> # accumulate format (stepTotals totals v) (index + 1) xs"
    unfolding l_def by (rule accumulate_Cons)
  show ?case
    unfolding unfold
    using Cons.IH [of "stepTotals totals v" "index + 1"]
      accumulate_counts_ge [of _ format "stepTotals totals v" "index + 1" xs]
    by auto
qed

lemma accumulate_powers_ge:
  assumes "p \<in> set (accumulate format totals index xs)" and "\<forall>v\<in>set xs. 0 \<le> powerOf v"
  shows "yesPower totals \<le> yesPower p \<and> noPower totals \<le> noPower p
       \<and> abstainPower totals \<le> abstainPower p"
  using assms
proof (induction xs arbitrary: totals index)
  case Nil
  then show ?case by simp
next
  case (Cons v xs)
  define l where "l = pointLabel format index v"
  have unfold: "accumulate format totals index (v # xs)
        = (stepTotals totals v)\<lparr>label := l\<rparr> # accumulate format (stepTotals totals v) (index + 1) xs"
    unfolding l_def by (rule accumulate_Cons)
  from Cons.prems(2) have nonneg: "0 \<le> powerOf v" and rest: "\<forall>v\<in>set xs. 0 \<le> powerOf v"
    by simp_all
  from nonneg have step: "yesPower totals \<le> yesPower (stepTotals totals v)
            \<and> noPower totals \<le> noPower (stepTotals totals v)
            \<and> abstainPower totals \<le> abstainPower (stepTotals totals v)"
    by (simp add: stepTotals_def)
  from Cons.prems(1) unfold consider "p = (stepTotals totals v)\<lparr>label := l\<rparr>"
    | "p \<in> set (accumulate format (stepTotals totals v) (index + 1) xs)"
    by auto
  then show ?case
  proof cases
    case 1
    with step show ?thesis by simp
  next
    case 2
    from Cons.IH [OF 2 rest] step show ?thesis by linarith
  qed
qed

lemma accumulate_powers_sorted:
  assumes "\<forall>v\<in>set xs. 0 \<le> powerOf v"
  shows "sorted (map yesPower (accumulate format totals index xs))
   \<and> sorted (map noPower (accumulate format totals index xs))
   \<and> sorted (map abstainPower (accumulate format totals index xs))"
  using assms
proof (induction xs arbitrary: totals index)
  case Nil
  then show ?case by simp
next
  case (Cons v xs)
  define l where "l = pointLabel format index v"
  have unfold: "accumulate format totals index (v # xs)
        = (stepTotals totals v)\<lparr>label := l\<rparr> # accumulate format (stepTotals totals v) (index + 1) xs"
    unfolding l_def by (rule accumulate_Cons)
  from Cons.prems have rest: "\<forall>v\<in>set xs. 0 \<le> powerOf v" by simp
  show ?case
    unfolding unfold
    using Cons.IH [OF rest, of "stepTotals totals v" "index + 1"]
      accumulate_powers_ge [OF _ rest, of _ format "stepTotals totals v" "index + 1"]
    by auto
qed

lemma totalsAre_zero: "totalsAre p zeroTotals xs = hasTotals p xs"
  by (simp add: totalsAre_def hasTotals_def zeroTotals_def)

lemma countWhere_mset:
  assumes "mset xs = mset ys"
  shows "countWhere P xs = countWhere P ys"
proof -
  have "size (filter_mset P (mset xs)) = size (filter_mset P (mset ys))"
    using assms by simp
  then show ?thesis by (simp add: countWhere_def flip: mset_filter)
qed

lemma powerWhere_mset:
  assumes "mset xs = mset ys"
  shows "powerWhere P xs = powerWhere P ys"
proof -
  have "sum_mset (image_mset powerOf (filter_mset P (mset xs)))
      = sum_mset (image_mset powerOf (filter_mset P (mset ys)))"
    using assms by simp
  then show ?thesis
    by (simp add: powerWhere_def sum_mset_sum_list flip: mset_filter mset_map)
qed

lemma countWhere_truncate:
  assumes "\<And>w. P w = Q (VoteRecord.truncate w)"
  shows "countWhere P ws = countWhere Q (map VoteRecord.truncate ws)"
  by (induction ws) (simp_all add: countWhere_def assms)

lemma powerOf_truncate: "powerOf (VoteRecord.truncate w) = powerOf w"
  by (simp add: powerOf_def VoteRecord.defs)

lemma powerWhere_truncate:
  assumes "\<And>w. P w = Q (VoteRecord.truncate w)"
  shows "powerWhere P ws = powerWhere Q (map VoteRecord.truncate ws)"
  by (induction ws) (simp_all add: powerWhere_def powerOf_truncate assms)

lemma kinds_truncate:
  "isYes w = isYes (VoteRecord.truncate w)"
  "isNo w = isNo (VoteRecord.truncate w)"
  "isAbstain w = isAbstain (VoteRecord.truncate w)"
  by (simp_all add: isYes_def isNo_def isAbstain_def VoteRecord.defs)

lemma hasTotals_sorted_votes:
  "hasTotals p (votesWithDates newDate vs) = hasTotals p vs"
proof -
  have m: "mset (votesWithDates newDate vs) = mset (attachDates newDate vs)"
    by (simp add: votesWithDates_def mset_sortBy)
  have c: "countWhere P (votesWithDates newDate vs) = countWhere Q vs"
    if "\<And>w. P w = Q (VoteRecord.truncate w)" for P Q
    using countWhere_mset [OF m, of P] countWhere_truncate [of P Q, OF that]
    by (simp add: truncate_attachDates)
  have pw: "powerWhere P (votesWithDates newDate vs) = powerWhere Q vs"
    if "\<And>w. P w = Q (VoteRecord.truncate w)" for P Q
    using powerWhere_mset [OF m, of P] powerWhere_truncate [of P Q, OF that]
    by (simp add: truncate_attachDates)
  have "countWhere isYes (votesWithDates newDate vs) = countWhere isYes vs"
    by (rule c) (rule kinds_truncate)
  moreover have "countWhere isNo (votesWithDates newDate vs) = countWhere isNo vs"
    by (rule c) (rule kinds_truncate)
  moreover have "countWhere isAbstain (votesWithDates newDate vs) = countWhere isAbstain vs"
    by (rule c) (rule kinds_truncate)
  moreover have "powerWhere isYes (votesWithDates newDate vs) = powerWhere isYes vs"
    by (rule pw) (rule kinds_truncate)
  moreover have "powerWhere isNo (votesWithDates newDate vs) = powerWhere isNo vs"
    by (rule pw) (rule kinds_truncate)
  moreover have "powerWhere isAbstain (votesWithDates newDate vs) = powerWhere isAbstain vs"
    by (rule pw) (rule kinds_truncate)
  ultimately show ?thesis
    by (simp only: hasTotals_def)
qed

lemma length_votesWithDates: "length (votesWithDates newDate vs) = length vs"
proof -
  have "size (mset (votesWithDates newDate vs)) = size (mset (attachDates newDate vs))"
    by (simp add: votesWithDates_def mset_sortBy)
  then show ?thesis by (simp add: attachDates_def)
qed

lemma powers_nonneg_sorted_votes:
  assumes "\<forall>v\<in>set vs. 0 \<le> powerOf v"
  shows "\<forall>w\<in>set (votesWithDates newDate vs). 0 \<le> powerOf w"
proof
  fix w assume "w \<in> set (votesWithDates newDate vs)"
  then have "w \<in> set (attachDates newDate vs)"
    by (simp add: votesWithDates_def set_sortBy)
  then have "VoteRecord.truncate w \<in> set (map VoteRecord.truncate (attachDates newDate vs))"
    by simp
  then have "VoteRecord.truncate w \<in> set vs"
    by (simp only: truncate_attachDates)
  with assms have "0 \<le> powerOf (VoteRecord.truncate w)" by blast
  then show "0 \<le> powerOf w" by (simp add: powerOf_truncate)
qed

text \<open>
  Claim C7, with the condition the power fields need. The timeline has one point per
  role-filtered vote; the point at position \<open>i\<close> carries the six totals of the first
  \<open>i + 1\<close> votes in sorted order (power from \<open>votingPowerAda\<close>, 0 when absent; every
  vote other than \<open>Yes\<close> and \<open>No\<close> counted as abstain); the three counts never decrease
  along the sequence; the three powers never decrease when no vote has a negative power;
  and the last point carries the totals of all the role-filtered votes.
\<close>

theorem timeline_cumulative_totals:
  fixes newDate format role vs
  defines "fs \<equiv> roleFilteredVotes role vs"
  defines "pts \<equiv> voteTimelineData newDate format role vs"
  shows "length pts = length fs
       \<and> (\<forall>i<length pts. hasTotals (pts ! i) (take (Suc i) (votesWithDates newDate fs)))
       \<and> sorted (map yesCount pts) \<and> sorted (map noCount pts) \<and> sorted (map abstainCount pts)
       \<and> ((\<forall>v\<in>set fs. 0 \<le> powerOf v) \<longrightarrow>
            sorted (map yesPower pts) \<and> sorted (map noPower pts) \<and> sorted (map abstainPower pts))
       \<and> (pts \<noteq> [] \<longrightarrow> hasTotals (last pts) fs)"
proof -
  let ?ss = "votesWithDates newDate fs"
  have pts: "pts = accumulate format zeroTotals 0 ?ss"
  proof (cases "fs = []")
    case True
    then have "?ss = []" using length_votesWithDates [of newDate fs] by simp
    with True show ?thesis by (simp add: pts_def fs_def voteTimelineData_def)
  next
    case False
    then show ?thesis by (simp add: pts_def fs_def voteTimelineData_def Let_def)
  qed
  have len: "length pts = length fs"
    by (simp add: pts length_accumulate length_votesWithDates)
  have nth: "hasTotals (pts ! i) (take (Suc i) ?ss)" if "i < length pts" for i
  proof -
    from that have "i < length ?ss" by (simp add: pts length_accumulate)
    from accumulate_nth [OF this, of format zeroTotals 0] show ?thesis
      by (simp only: pts totalsAre_zero)
  qed
  have counts: "sorted (map yesCount pts) \<and> sorted (map noCount pts) \<and> sorted (map abstainCount pts)"
    unfolding pts by (rule accumulate_counts_sorted)
  have powers: "sorted (map yesPower pts) \<and> sorted (map noPower pts) \<and> sorted (map abstainPower pts)"
    if "\<forall>v\<in>set fs. 0 \<le> powerOf v"
    unfolding pts by (rule accumulate_powers_sorted) (rule powers_nonneg_sorted_votes [OF that])
  have final: "hasTotals (last pts) fs" if "pts \<noteq> []"
  proof -
    from that have pos: "length pts - 1 < length pts" by (cases pts) simp_all
    have "last pts = pts ! (length pts - 1)" using that by (rule last_conv_nth)
    moreover have "take (Suc (length pts - 1)) ?ss = ?ss"
      using pos by (simp add: pts length_accumulate)
    ultimately have "hasTotals (last pts) ?ss" using nth [OF pos] by simp
    then show ?thesis by (simp only: hasTotals_sorted_votes)
  qed
  from len nth counts powers final show ?thesis by blast
qed

theorem timeline_cumulative_totals_witness:
  "list_all (\<lambda>v. 0 \<le> powerOf v) (roleFilteredVotes ''All'' exampleVotes)
   \<and> sorted (map yesPower (voteTimelineData exampleNewDate exampleFormat ''All'' exampleVotes))
   \<and> yesPower (last (voteTimelineData exampleNewDate exampleFormat ''All'' exampleVotes)) = 10
   \<and> noPower (last (voteTimelineData exampleNewDate exampleFormat ''All'' exampleVotes)) = 5
   \<and> abstainPower (last (voteTimelineData exampleNewDate exampleFormat ''All'' exampleVotes)) = 2
   \<and> yesCount (last (voteTimelineData exampleNewDate exampleFormat ''All'' exampleVotes)) = 2"
proof -
  let ?pts = "voteTimelineData exampleNewDate exampleFormat ''All'' exampleVotes"
  have fs: "roleFilteredVotes ''All'' exampleVotes = exampleVotes"
    by (simp add: roleFilteredVotes_def)
  have nonneg: "\<forall>v\<in>set (roleFilteredVotes ''All'' exampleVotes). 0 \<le> powerOf v"
    unfolding fs by (simp add: exampleVotes_def exampleVote_def powerOf_def orElse_def)
  note inst = timeline_cumulative_totals [of exampleNewDate exampleFormat "''All''" exampleVotes]
  from inst have "length ?pts = length exampleVotes" by (simp add: fs)
  then have nonempty: "?pts \<noteq> []" by (auto simp: exampleVotes_def)
  from inst nonneg have mono: "sorted (map yesPower ?pts)" by blast
  from inst nonempty have "hasTotals (last ?pts) exampleVotes" by (simp add: fs)
  then have totals: "yesPower (last ?pts) = 10 \<and> noPower (last ?pts) = 5
      \<and> abstainPower (last ?pts) = 2 \<and> yesCount (last ?pts) = 2"
    by (simp add: hasTotals_def countWhere_def powerWhere_def isYes_def isNo_def isAbstain_def
          powerOf_def orElse_def exampleVotes_def exampleVote_def)
  from nonneg mono totals show ?thesis by (simp add: list_all_iff)
qed

text \<open>
  The claim as stated fails for the power fields: a vote with a negative
  \<open>votingPowerAda\<close> lowers the running total.
\<close>

theorem timeline_negative_power_counterexample:
  "map yesPower (voteTimelineData exampleNewDate exampleFormat ''All'' negativePowerVotes) = [5, 3]
   \<and> \<not> sorted (map yesPower
                  (voteTimelineData exampleNewDate exampleFormat ''All'' negativePowerVotes))"
proof -
  have "map yesPower (voteTimelineData exampleNewDate exampleFormat ''All'' negativePowerVotes)
          = [5, 3]"
    by (simp add: voteTimelineData_def roleFilteredVotes_def negativePowerVotes_def zeroTotals_def
          timeline_eval orElse_def Let_def del: showNat.simps)
  then show ?thesis by simp
qed


section \<open>Unit conversion\<close>

lemma isFinite_perMillion: "isFinite (perMillion x) = isFinite x"
  by (cases x) (simp_all add: isFinite_def perMillion_def)

lemma isFinite_lovelaceToAdaNumber: "isFinite (lovelaceToAdaNumber toNumber lovelace)"
  by (simp add: lovelaceToAdaNumber_def Let_def isFinite_def split: option.splits number.splits)

text \<open>
  Claim C8. For a non-empty string that \<open>Number\<close> reads as a finite value (every valid
  integer string), \<open>lovelaceToAdaNumber\<close> returns that value divided by 1,000,000; it
  returns 0 for \<open>undefined\<close>, for the empty string and for a string read as \<open>NaN\<close> or an
  infinity; and its result is a finite number for every input and every behaviour of
  \<open>Number\<close>. The function has no failing branch.
\<close>

theorem lovelaceToAdaNumber_total:
  "(\<forall>s q. s \<noteq> [] \<and> toNumber s = Finite q \<longrightarrow>
        lovelaceToAdaNumber toNumber (Some s) = Finite (q / 1000000))
   \<and> lovelaceToAdaNumber toNumber None = Finite 0
   \<and> lovelaceToAdaNumber toNumber (Some []) = Finite 0
   \<and> (\<forall>s. toNumber s = NaN \<or> toNumber s = Infinity \<or> toNumber s = NegInfinity \<longrightarrow>
        lovelaceToAdaNumber toNumber (Some s) = Finite 0)
   \<and> (\<forall>lovelace. \<exists>q. lovelaceToAdaNumber toNumber lovelace = Finite q)"
proof -
  have fin: "\<exists>q. lovelaceToAdaNumber toNumber lovelace = Finite q" for lovelace
    using isFinite_lovelaceToAdaNumber [of toNumber lovelace]
    by (cases "lovelaceToAdaNumber toNumber lovelace") (simp_all add: isFinite_def)
  show ?thesis
    using fin
    by (auto simp: lovelaceToAdaNumber_def Let_def isFinite_def perMillion_def)
qed

theorem lovelaceToAdaNumber_total_witness:
  "lovelaceToAdaNumber exampleToNumber (Some ''2500000'') = Finite (5 / 2)
   \<and> lovelaceToAdaNumber exampleToNumber (Some ''not-a-number'') = Finite 0
   \<and> lovelaceToAdaNumber exampleToNumber (Some ''Infinity'') = Finite 0"
proof -
  note inst = lovelaceToAdaNumber_total [of exampleToNumber]
  have a: "''2500000'' \<noteq> [] \<and> exampleToNumber ''2500000'' = Finite 2500000"
    by (simp add: exampleToNumber_def)
  have b: "exampleToNumber ''not-a-number'' = NaN"
    by (simp add: exampleToNumber_def)
  have c: "exampleToNumber ''Infinity'' = Infinity"
    by (simp add: exampleToNumber_def)
  from inst a have "lovelaceToAdaNumber exampleToNumber (Some ''2500000'') = Finite (2500000 / 1000000)"
    by blast
  moreover from inst b have "lovelaceToAdaNumber exampleToNumber (Some ''not-a-number'') = Finite 0"
    by blast
  moreover from inst c have "lovelaceToAdaNumber exampleToNumber (Some ''Infinity'') = Finite 0"
    by blast
  ultimately show ?thesis by simp
qed


section \<open>Action record normalizer\<close>

text \<open>
  Claim C2, with the SPO and CC fields as the code leaves them. The title and the
  constitutionality label get their defaults when empty; the DRep percentages, the DRep ADA
  amounts, the three vote totals and the two epochs are always present, with 0 for an absent
  raw value, and the ADA amounts are finite. The SPO percentages and the CC percentages and
  counts are passed through with no default: each is absent when the raw tally or its
  field is absent. The SPO ADA amounts are absent when the raw SPO tally is absent; when
  the tally is present they are present and finite, converted from the lovelace fields,
  and 0 for a lovelace field that is absent.
\<close>

theorem transformGovernanceAction_defaults:
  fixes toNumber action
  defines "out \<equiv> transformGovernanceAction toNumber action"
  shows
   "title out = (if title action = [] then ''Untitled Proposal'' else title action)
  \<and> constitutionality out
      = (if constitutionality action = [] then ''Unspecified'' else constitutionality action)
  \<and> defaultsTo (drepYesPercent out) (Option.bind (drep action) yesPercent)
  \<and> defaultsTo (drepNoPercent out) (Option.bind (drep action) noPercent)
  \<and> defaultsTo (drepAbstainPercent out) (Option.bind (drep action) abstainPercent)
  \<and> drepYesAda out = Some (lovelaceToAdaNumber toNumber (Option.bind (drep action) yesLovelace))
  \<and> drepNoAda out = Some (lovelaceToAdaNumber toNumber (Option.bind (drep action) noLovelace))
  \<and> drepAbstainAda out
      = Some (lovelaceToAdaNumber toNumber (Option.bind (drep action) abstainLovelace))
  \<and> defaultsTo (totalYes out) (totalYes action)
  \<and> defaultsTo (totalNo out) (totalNo action)
  \<and> defaultsTo (totalAbstain out) (totalAbstain action)
  \<and> defaultsTo (submissionEpoch out) (submissionEpoch action)
  \<and> defaultsTo (expiryEpoch out) (expiryEpoch action)
  \<and> spoYesPercent out = Option.bind (spo action) yesPercent
  \<and> spoNoPercent out = Option.bind (spo action) noPercent
  \<and> spoAbstainPercent out = Option.bind (spo action) abstainPercent
  \<and> spoYesAda out = map_option (\<lambda>s. lovelaceToAdaNumber toNumber (yesLovelace s)) (spo action)
  \<and> spoNoAda out = map_option (\<lambda>s. lovelaceToAdaNumber toNumber (noLovelace s)) (spo action)
  \<and> spoAbstainAda out
      = map_option (\<lambda>s. lovelaceToAdaNumber toNumber (abstainLovelace s)) (spo action)
  \<and> ccYesPercent out = Option.bind (cc action) yesPercent
  \<and> ccNoPercent out = Option.bind (cc action) noPercent
  \<and> ccAbstainPercent out = Option.bind (cc action) abstainPercent
  \<and> ccYesCount out = Option.bind (cc action) VoteTally.yesCount
  \<and> ccNoCount out = Option.bind (cc action) VoteTally.noCount
  \<and> ccAbstainCount out = Option.bind (cc action) VoteTally.abstainCount
  \<and> (\<exists>y n a. drepYesAda out = Some (Finite y) \<and> drepNoAda out = Some (Finite n)
               \<and> drepAbstainAda out = Some (Finite a))
  \<and> (spo action = None \<longrightarrow>
        spoYesAda out = None \<and> spoNoAda out = None \<and> spoAbstainAda out = None)
  \<and> (\<forall>s. spo action = Some s \<longrightarrow>
        (\<exists>y n a. spoYesAda out = Some (Finite y) \<and> spoNoAda out = Some (Finite n)
                 \<and> spoAbstainAda out = Some (Finite a))
        \<and> (yesLovelace s = None \<longrightarrow> spoYesAda out = Some (Finite 0))
        \<and> (noLovelace s = None \<longrightarrow> spoNoAda out = Some (Finite 0))
        \<and> (abstainLovelace s = None \<longrightarrow> spoAbstainAda out = Some (Finite 0)))"
proof -
  have fin: "\<exists>q. lovelaceToAdaNumber toNumber lovelace = Finite q" for lovelace
    using isFinite_lovelaceToAdaNumber [of toNumber lovelace]
    by (cases "lovelaceToAdaNumber toNumber lovelace") (simp_all add: isFinite_def)
  have absent: "lovelaceToAdaNumber toNumber None = Finite 0"
    by (simp add: lovelaceToAdaNumber_def)
  show ?thesis
    unfolding out_def
    by (simp add: transformGovernanceAction_def Let_def defaultsTo_def orElse_def fin absent)
qed

theorem transformGovernanceAction_defaults_witness:
  "spoYesPercent (transformGovernanceAction exampleToNumber
       (exampleAction\<lparr>spo := Some (emptyTally\<lparr>noLovelace := Some ''2500000''\<rparr>)\<rparr>)) = None
   \<and> spoYesAda (transformGovernanceAction exampleToNumber
       (exampleAction\<lparr>spo := Some (emptyTally\<lparr>noLovelace := Some ''2500000''\<rparr>)\<rparr>))
       = Some (Finite 0)
   \<and> spoNoAda (transformGovernanceAction exampleToNumber
       (exampleAction\<lparr>spo := Some (emptyTally\<lparr>noLovelace := Some ''2500000''\<rparr>)\<rparr>))
       = Some (Finite (5 / 2))
   \<and> drepYesPercent (transformGovernanceAction exampleToNumber
       (exampleAction\<lparr>spo := Some (emptyTally\<lparr>noLovelace := Some ''2500000''\<rparr>)\<rparr>))
       = Some 0
   \<and> spoYesAda (transformGovernanceAction exampleToNumber exampleAction) = None"
proof -
  let ?tally = "emptyTally\<lparr>noLovelace := Some ''2500000''\<rparr>"
  let ?raw = "exampleAction\<lparr>spo := Some ?tally\<rparr>"
  note inst = transformGovernanceAction_defaults [of exampleToNumber ?raw]
  note bare = transformGovernanceAction_defaults [of exampleToNumber exampleAction]
  have spo: "spo ?raw = Some ?tally" by simp
  have none: "yesLovelace ?tally = None" by (simp add: emptyTally_def)
  have conv: "lovelaceToAdaNumber exampleToNumber (Some ''2500000'') = Finite (5 / 2)"
    by (simp add: lovelaceToAdaNumber_def exampleToNumber_def perMillion_def isFinite_def)
  from inst spo have a: "spoYesPercent (transformGovernanceAction exampleToNumber ?raw) = None"
    by (simp add: emptyTally_def)
  from inst spo none have b: "spoYesAda (transformGovernanceAction exampleToNumber ?raw)
      = Some (Finite 0)"
    by blast
  from inst spo conv have c: "spoNoAda (transformGovernanceAction exampleToNumber ?raw)
      = Some (Finite (5 / 2))"
    by (simp add: emptyTally_def)
  from inst have d: "drepYesPercent (transformGovernanceAction exampleToNumber ?raw) = Some 0"
    by (simp add: defaultsTo_def exampleAction_def)
  from bare have e: "spoYesAda (transformGovernanceAction exampleToNumber exampleAction) = None"
    by (simp add: exampleAction_def)
  from a b c d e show ?thesis by simp
qed

text \<open>
  The claim as stated fails for the SPO and CC fields: an action without \<open>spo\<close> and
  \<open>cc\<close> tallies has no \<open>spoYesPercent\<close>, \<open>spoYesAda\<close>, \<open>ccYesPercent\<close> or
  \<open>ccYesCount\<close> after normalisation.
\<close>

theorem transform_optional_roles_counterexample:
  "spoYesPercent (transformGovernanceAction exampleToNumber exampleAction) = None
   \<and> spoYesAda (transformGovernanceAction exampleToNumber exampleAction) = None
   \<and> ccYesPercent (transformGovernanceAction exampleToNumber exampleAction) = None
   \<and> ccYesCount (transformGovernanceAction exampleToNumber exampleAction) = None"
  by (simp add: transformGovernanceAction_def Let_def exampleAction_def)


section \<open>Abstain-value derivation\<close>

text \<open>
  Claim C9, with the floor the spec gives. The value is never negative; it is 0 when
  \<open>yesPercent + noPercent\<close> is 0 (missing operands counting as 0); and when the abstain
  percentage is provided and \<open>yesPercent + noPercent > 0\<close> it is the value of the formula
  floored at 0, hence the value of the formula itself whenever that is not negative, as it
  is for non-negative operands.
\<close>

theorem deriveAbstainValue_policy:
  "0 \<le> deriveAbstainValue yv yp nv np ap
   \<and> (orElse yp 0 + orElse np 0 = 0 \<longrightarrow> deriveAbstainValue yv yp nv np ap = 0)
   \<and> (\<forall>a. ap = Some a \<and> orElse yp 0 + orElse np 0 > 0 \<longrightarrow>
          deriveAbstainValue yv yp nv np ap = max 0 (impliedAbstain yv yp nv np a))
   \<and> (\<forall>a. ap = Some a \<and> orElse yp 0 + orElse np 0 > 0 \<and> 0 \<le> impliedAbstain yv yp nv np a \<longrightarrow>
          deriveAbstainValue yv yp nv np ap = impliedAbstain yv yp nv np a)
   \<and> (\<forall>a. 0 \<le> orElse yv 0 \<and> 0 \<le> orElse nv 0 \<and> 0 \<le> a \<and> orElse yp 0 + orElse np 0 > 0 \<longrightarrow>
          0 \<le> impliedAbstain yv yp nv np a)"
proof -
  have nonneg: "0 \<le> deriveAbstainValue yv yp nv np ap"
    by (simp add: deriveAbstainValue_def Let_def split: option.splits)
  have zero: "orElse yp 0 + orElse np 0 = 0 \<longrightarrow> deriveAbstainValue yv yp nv np ap = 0"
    by (simp add: deriveAbstainValue_def Let_def)
  have floor: "deriveAbstainValue yv yp nv np ap = max 0 (impliedAbstain yv yp nv np a)"
    if "ap = Some a" "orElse yp 0 + orElse np 0 > 0" for a
    using that by (simp add: deriveAbstainValue_def Let_def impliedAbstain_def)
  have exact: "deriveAbstainValue yv yp nv np ap = impliedAbstain yv yp nv np a"
    if "ap = Some a" "orElse yp 0 + orElse np 0 > 0" "0 \<le> impliedAbstain yv yp nv np a" for a
    using floor [OF that(1,2)] that(3) by simp
  have pos: "0 \<le> impliedAbstain yv yp nv np a"
    if "0 \<le> orElse yv 0" "0 \<le> orElse nv 0" "0 \<le> a" "orElse yp 0 + orElse np 0 > 0" for a
    using that by (simp add: impliedAbstain_def)
  from nonneg zero floor exact pos show ?thesis by blast
qed

theorem deriveAbstainValue_policy_witness:
  "deriveAbstainValue (Some 300) (Some 60) (Some 100) (Some 20) (Some 20) = 100
   \<and> impliedAbstain (Some 300) (Some 60) (Some 100) (Some 20) 20 = 100
   \<and> deriveAbstainValue (Some 300) None (Some 100) None (Some 20) = 0"
proof -
  note inst = deriveAbstainValue_policy [of "Some 300" "Some 60" "Some 100" "Some 20" "Some 20"]
  have v: "impliedAbstain (Some 300) (Some 60) (Some 100) (Some 20) 20 = 100"
    by (simp add: impliedAbstain_def orElse_def)
  have s: "orElse (Some (60::rat)) 0 + orElse (Some 20) 0 > 0"
    by (simp add: orElse_def)
  from inst s v have a: "deriveAbstainValue (Some 300) (Some 60) (Some 100) (Some 20) (Some 20) = 100"
    by simp
  have z: "orElse (None :: rat option) 0 + orElse None 0 = 0"
    by (simp add: orElse_def)
  from deriveAbstainValue_policy [of "Some 300" None "Some 100" None "Some 20"] z
  have b: "deriveAbstainValue (Some 300) None (Some 100) None (Some 20) = 0"
    by blast
  from a v b show ?thesis by simp
qed

text \<open>
  The claim as stated fails: with a negative abstain percentage the formula is negative,
  and the value returned is 0.
\<close>

theorem deriveAbstainValue_negative_counterexample:
  "deriveAbstainValue (Some 1) (Some 50) (Some 1) (Some 50) (Some (- 10)) = 0
   \<and> impliedAbstain (Some 1) (Some 50) (Some 1) (Some 50) (- 10) = - 1 / 5"
  by (simp add: deriveAbstainValue_def impliedAbstain_def orElse_def Let_def)


section \<open>Proposal hash parsing\<close>

lemma split_nonempty: "split c h \<noteq> []"
  by (induction h) (auto split: list.splits)

lemma split_head: "\<exists>rest. split c h = takeWhile (\<lambda>x. x \<noteq> c) h # rest"
  by (induction h) (auto split: list.splits simp: split_nonempty)

lemma split_no_sep: "c \<notin> set h \<Longrightarrow> split c h = [h]"
  by (induction h) (auto split: list.splits)

lemma split_sep:
  assumes "c \<in> set h"
  shows "\<exists>rest. split c h = txPart c h # indexPart c h # rest"
  using assms
proof (induction h)
  case Nil
  then show ?case by simp
next
  case (Cons x xs)
  show ?case
  proof (cases "x = c")
    case True
    obtain rest where "split c xs = takeWhile (\<lambda>x. x \<noteq> c) xs # rest"
      using split_head by blast
    with True show ?thesis by (simp add: txPart_def indexPart_def)
  next
    case False
    with Cons.prems have "c \<in> set xs" by simp
    from Cons.IH [OF this] obtain rest where "split c xs = txPart c xs # indexPart c xs # rest"
      by blast
    with False show ?thesis by (simp add: txPart_def indexPart_def)
  qed
qed

lemma attempt_eq:
  assumes "sep \<in> set h"
  shows "(case split sep h of
            txHashStr # certIndexStr # rest \<Rightarrow>
              (case parseInt certIndexStr of
                 Some certIndex \<Rightarrow> if txHashStr \<noteq> [] then Some (txHashStr, certIndex) else None
               | None \<Rightarrow> None)
          | _ \<Rightarrow> None)
       = (if formParses parseInt sep h then formResult parseInt sep h else None)"
proof -
  from split_sep [OF assms] obtain rest where "split sep h = txPart sep h # indexPart sep h # rest"
    by blast
  then show ?thesis
    using assms by (auto simp: formParses_def formResult_def split: option.splits)
qed

lemma parseProposalHash_eq:
  "parseProposalHash parseInt h =
     (if formParses parseInt CHR '':'' h then formResult parseInt CHR '':'' h
      else if formParses parseInt CHR ''#'' h then formResult parseInt CHR ''#'' h
      else None)"
proof (cases "h = []")
  case True
  then show ?thesis by (simp add: parseProposalHash_def formParses_def)
next
  case False
  have none: "\<not> formParses parseInt sep h" if "sep \<notin> set h" for sep
    using that by (simp add: formParses_def)
  have some: "formResult parseInt sep h \<noteq> None" if "formParses parseInt sep h" for sep
    using that by (auto simp: formParses_def formResult_def)
  show ?thesis
  proof (cases "CHR '':'' \<in> set h")
    case c: True
    show ?thesis
    proof (cases "CHR ''#'' \<in> set h")
      case True
      with c False some [of "CHR '':''"] show ?thesis
        unfolding parseProposalHash_def
        by (simp only: attempt_eq [OF c] attempt_eq [OF True] if_True if_False)
           (auto split: option.splits)
    next
      case n: False
      with c False some [of "CHR '':''"] none [OF n] show ?thesis
        unfolding parseProposalHash_def
        by (simp only: attempt_eq [OF c] if_True if_False)
           (auto split: option.splits)
    qed
  next
    case nc: False
    show ?thesis
    proof (cases "CHR ''#'' \<in> set h")
      case True
      with nc False none [OF nc] show ?thesis
        unfolding parseProposalHash_def
        by (simp only: attempt_eq [OF True] if_True if_False)
           (auto split: option.splits)
    next
      case n: False
      with nc False none [OF nc] none [OF n] show ?thesis
        unfolding parseProposalHash_def by simp
    qed
  qed
qed

lemma takeWhile_before_sep:
  "sep \<notin> set tx \<Longrightarrow> takeWhile (\<lambda>c. c \<noteq> sep) (tx @ sep # idx) = tx"
  by (induction tx) auto

lemma dropWhile_before_sep:
  "sep \<notin> set tx \<Longrightarrow> dropWhile (\<lambda>c. c \<noteq> sep) (tx @ sep # idx) = sep # idx"
  by (induction tx) auto

lemma takeWhile_no_sep:
  "sep \<notin> set idx \<Longrightarrow> takeWhile (\<lambda>c. c \<noteq> sep) idx = idx"
  by (induction idx) auto

lemma parts_of_form:
  assumes "h = tx @ sep # idx" and "sep \<notin> set tx" and "sep \<notin> set idx"
  shows "txPart sep h = tx \<and> indexPart sep h = idx \<and> sep \<in> set h"
  using assms
  by (simp add: txPart_def indexPart_def takeWhile_before_sep dropWhile_before_sep
        takeWhile_no_sep)

lemma form_ok:
  assumes "h = tx @ sep # idx" and "sep \<notin> set tx" and "sep \<notin> set idx"
    and "tx \<noteq> []" and "parseInt idx = Some n"
  shows "formParses parseInt sep h \<and> formResult parseInt sep h = Some (tx, n)"
  using parts_of_form [OF assms(1-3)] assms(4,5)
  by (simp add: formParses_def formResult_def)

lemma form_bad:
  assumes "h = tx @ sep # idx" and "sep \<notin> set tx" and "sep \<notin> set idx"
    and "tx = [] \<or> parseInt idx = None"
  shows "\<not> formParses parseInt sep h"
  using parts_of_form [OF assms(1-3)] assms(4)
  by (auto simp: formParses_def)

lemma form_absent: "sep \<notin> set h \<Longrightarrow> \<not> formParses parseInt sep h"
  by (simp add: formParses_def)

text \<open>
  Claim C10. \<open>parseProposalHash\<close> returns null for the empty string, for a hash with
  neither \<open>:\<close> nor \<open>#\<close>, and whenever neither form parses (the part before the separator
  is empty, or the index part is not read as an integer). When the \<open>:\<close> form parses, the
  result is its pair, whether or not \<open>#\<close> occurs; the \<open>#\<close> form is used only when the
  \<open>:\<close> form does not parse. In particular a hash \<open>txHash:certIndex\<close> with a non-empty
  \<open>txHash\<close> and an index read as \<open>n\<close> gives \<open>(txHash, n)\<close>, and so does
  \<open>txHash#certIndex\<close> when the hash has no \<open>:\<close>.
\<close>

theorem parseProposalHash_forms:
  "parseProposalHash parseInt [] = None
   \<and> (CHR '':'' \<notin> set h \<and> CHR ''#'' \<notin> set h \<longrightarrow> parseProposalHash parseInt h = None)
   \<and> (\<not> formParses parseInt CHR '':'' h \<and> \<not> formParses parseInt CHR ''#'' h \<longrightarrow>
         parseProposalHash parseInt h = None)
   \<and> (formParses parseInt CHR '':'' h \<longrightarrow>
         parseProposalHash parseInt h = formResult parseInt CHR '':'' h)
   \<and> (\<not> formParses parseInt CHR '':'' h \<and> formParses parseInt CHR ''#'' h \<longrightarrow>
         parseProposalHash parseInt h = formResult parseInt CHR ''#'' h)
   \<and> (\<forall>tx idx n. h = tx @ '':'' @ idx \<and> CHR '':'' \<notin> set tx \<and> CHR '':'' \<notin> set idx
         \<and> tx \<noteq> [] \<and> parseInt idx = Some n \<longrightarrow>
         parseProposalHash parseInt h = Some (tx, n))
   \<and> (\<forall>tx idx n. h = tx @ ''#'' @ idx \<and> CHR ''#'' \<notin> set tx \<and> CHR ''#'' \<notin> set idx
         \<and> CHR '':'' \<notin> set h \<and> tx \<noteq> [] \<and> parseInt idx = Some n \<longrightarrow>
         parseProposalHash parseInt h = Some (tx, n))
   \<and> (\<forall>tx idx. h = tx @ '':'' @ idx \<and> CHR '':'' \<notin> set tx \<and> CHR '':'' \<notin> set idx
         \<and> CHR ''#'' \<notin> set h \<and> (tx = [] \<or> parseInt idx = None) \<longrightarrow>
         parseProposalHash parseInt h = None)
   \<and> (\<forall>tx idx. h = tx @ ''#'' @ idx \<and> CHR ''#'' \<notin> set tx \<and> CHR ''#'' \<notin> set idx
         \<and> CHR '':'' \<notin> set h \<and> (tx = [] \<or> parseInt idx = None) \<longrightarrow>
         parseProposalHash parseInt h = None)"
proof -
  have empty: "parseProposalHash parseInt [] = None"
    by (simp add: parseProposalHash_def)
  have nosep: "parseProposalHash parseInt h = None" if "CHR '':'' \<notin> set h \<and> CHR ''#'' \<notin> set h"
    using that by (simp add: parseProposalHash_eq formParses_def)
  have colon_ok: "parseProposalHash parseInt h = Some (tx, n)"
    if "h = tx @ '':'' @ idx \<and> CHR '':'' \<notin> set tx \<and> CHR '':'' \<notin> set idx
         \<and> tx \<noteq> [] \<and> parseInt idx = Some n" for tx idx n
  proof -
    from that form_ok [of h tx "CHR '':''" idx parseInt n]
    have "formParses parseInt CHR '':'' h
        \<and> formResult parseInt CHR '':'' h = Some (tx, n)"
      by simp
    then show ?thesis by (simp add: parseProposalHash_eq)
  qed
  have hash_ok: "parseProposalHash parseInt h = Some (tx, n)"
    if "h = tx @ ''#'' @ idx \<and> CHR ''#'' \<notin> set tx \<and> CHR ''#'' \<notin> set idx
         \<and> CHR '':'' \<notin> set h \<and> tx \<noteq> [] \<and> parseInt idx = Some n" for tx idx n
  proof -
    from that form_ok [of h tx "CHR ''#''" idx parseInt n]
    have "formParses parseInt CHR ''#'' h
        \<and> formResult parseInt CHR ''#'' h = Some (tx, n)"
      by simp
    moreover from that have "CHR '':'' \<notin> set h" by blast
    then have "\<not> formParses parseInt CHR '':'' h"
      by (rule form_absent)
    ultimately show ?thesis by (simp add: parseProposalHash_eq)
  qed
  have colon_bad: "parseProposalHash parseInt h = None"
    if "h = tx @ '':'' @ idx \<and> CHR '':'' \<notin> set tx \<and> CHR '':'' \<notin> set idx
         \<and> CHR ''#'' \<notin> set h \<and> (tx = [] \<or> parseInt idx = None)" for tx idx
  proof -
    from that form_bad [of h tx "CHR '':''" idx parseInt]
    have "\<not> formParses parseInt CHR '':'' h"
      by simp
    moreover from that have "CHR ''#'' \<notin> set h" by blast
    then have "\<not> formParses parseInt CHR ''#'' h"
      by (rule form_absent)
    ultimately show ?thesis by (simp add: parseProposalHash_eq)
  qed
  have hash_bad: "parseProposalHash parseInt h = None"
    if "h = tx @ ''#'' @ idx \<and> CHR ''#'' \<notin> set tx \<and> CHR ''#'' \<notin> set idx
         \<and> CHR '':'' \<notin> set h \<and> (tx = [] \<or> parseInt idx = None)" for tx idx
  proof -
    from that form_bad [of h tx "CHR ''#''" idx parseInt]
    have "\<not> formParses parseInt CHR ''#'' h"
      by simp
    moreover from that have "CHR '':'' \<notin> set h" by blast
    then have "\<not> formParses parseInt CHR '':'' h"
      by (rule form_absent)
    ultimately show ?thesis by (simp add: parseProposalHash_eq)
  qed
  show ?thesis
    apply (intro conjI allI impI)
            apply (rule empty)
           apply (erule nosep)
          apply (simp add: parseProposalHash_eq)
         apply (simp add: parseProposalHash_eq)
        apply (simp add: parseProposalHash_eq)
       apply (erule colon_ok)
      apply (erule hash_ok)
     apply (erule colon_bad)
    apply (erule hash_bad)
    done
qed

theorem parseProposalHash_forms_witness:
  "parseProposalHash exampleParseInt ''abc123:7'' = Some (''abc123'', 7)
   \<and> parseProposalHash exampleParseInt ''abc123#12'' = Some (''abc123'', 12)
   \<and> parseProposalHash exampleParseInt ''abc123'' = None
   \<and> parseProposalHash exampleParseInt ''abc123:x'' = None
   \<and> parseProposalHash exampleParseInt ''ab#0:7'' = Some (''ab#0'', 7)"
proof -
  have a: "parseProposalHash exampleParseInt ''abc123:7'' = Some (''abc123'', 7)"
    using parseProposalHash_forms [of exampleParseInt "''abc123:7''", THEN conjunct2,
        THEN conjunct2, THEN conjunct2, THEN conjunct1]
    by (simp add: formParses_def formResult_def txPart_def indexPart_def exampleParseInt_def)
  have b: "parseProposalHash exampleParseInt ''abc123#12'' = Some (''abc123'', 12)"
    using parseProposalHash_forms [of exampleParseInt "''abc123#12''", THEN conjunct2,
        THEN conjunct2, THEN conjunct2, THEN conjunct2, THEN conjunct1]
    by (simp add: formParses_def formResult_def txPart_def indexPart_def exampleParseInt_def)
  have c: "parseProposalHash exampleParseInt ''abc123'' = None"
    using parseProposalHash_forms [of exampleParseInt "''abc123''", THEN conjunct2,
        THEN conjunct1]
    by simp
  have d: "parseProposalHash exampleParseInt ''abc123:x'' = None"
    using parseProposalHash_forms [of exampleParseInt "''abc123:x''", THEN conjunct2,
        THEN conjunct2, THEN conjunct1]
    by (simp add: formParses_def txPart_def indexPart_def exampleParseInt_def)
  have e: "parseProposalHash exampleParseInt ''ab#0:7'' = Some (''ab#0'', 7)"
    using parseProposalHash_forms [of exampleParseInt "''ab#0:7''", THEN conjunct2,
        THEN conjunct2, THEN conjunct2, THEN conjunct1]
    by (simp add: formParses_def formResult_def txPart_def indexPart_def exampleParseInt_def)
  from a b c d e show ?thesis by simp
qed


section \<open>Filter, sort and priority engine\<close>

lemma deduped_concat:
  "map the (filter (\<lambda>found. found \<noteq> None) (map (\<lambda>t. find (P t) xs) ts))
     = concat (map (\<lambda>t. case find (P t) xs of None \<Rightarrow> [] | Some a \<Rightarrow> [a]) ts)"
  by (induction ts) (auto split: option.splits)

lemma set_firstOfType: "r \<in> set (firstOfType t xs) \<longleftrightarrow> find (\<lambda>a. type a = t) xs = Some r"
  by (auto simp: firstOfType_def split: option.splits)

lemma firstOfType_type: "r \<in> set (firstOfType t xs) \<Longrightarrow> type r = t \<and> r \<in> set xs"
  by (auto simp: set_firstOfType find_Some_iff)

lemma map_type_firsts:
  "map type (concat (map (\<lambda>t. firstOfType t xs) ts)) = filter (\<lambda>t. t \<in> type ` set xs) ts"
proof (induction ts)
  case Nil
  then show ?case by simp
next
  case (Cons t ts)
  have "map type (firstOfType t xs) = (if t \<in> type ` set xs then [t] else [])"
  proof (cases "find (\<lambda>a. type a = t) xs")
    case None
    then have "t \<notin> type ` set xs" by (auto simp: find_None_iff)
    with None show ?thesis by (simp add: firstOfType_def)
  next
    case (Some a)
    then have "type a = t" "a \<in> set xs" by (auto simp: find_Some_iff)
    with Some show ?thesis by (auto simp: firstOfType_def)
  qed
  with Cons.IH show ?case by simp
qed

lemma map_type_representatives:
  "map type (representatives xs) = filter (\<lambda>t. t \<in> type ` set xs) SHOWCASE_ORDER"
  unfolding representatives_def by (rule map_type_firsts)

lemma distinct_SHOWCASE_ORDER: "distinct SHOWCASE_ORDER"
  by (simp add: SHOWCASE_ORDER_def)

lemma distinct_representatives: "distinct (representatives xs)"
proof -
  have "distinct (map type (representatives xs))"
    unfolding map_type_representatives by (rule distinct_filter) (rule distinct_SHOWCASE_ORDER)
  then show ?thesis by (rule distinct_map [THEN iffD1, THEN conjunct1])
qed

lemma representative_first:
  assumes "r \<in> set (representatives xs)"
  shows "find (\<lambda>a. type a = type r) xs = Some r \<and> type r \<in> set SHOWCASE_ORDER \<and> r \<in> set xs"
proof -
  from assms obtain t where t: "t \<in> set SHOWCASE_ORDER" and r: "r \<in> set (firstOfType t xs)"
    by (auto simp: representatives_def)
  from r have "type r = t" "r \<in> set xs" by (simp_all add: firstOfType_type)
  with t r show ?thesis by (simp add: set_firstOfType)
qed

lemma representatives_nonempty:
  assumes "a \<in> set xs" and "type a \<in> set SHOWCASE_ORDER"
  shows "representatives xs \<noteq> []"
proof -
  from assms have "type a \<in> set (filter (\<lambda>t. t \<in> type ` set xs) SHOWCASE_ORDER)" by simp
  then have "map type (representatives xs) \<noteq> []"
    unfolding map_type_representatives by (metis empty_iff empty_set)
  then show ?thesis by simp
qed

lemma distinct_PROPOSAL_TYPES: "distinct PROPOSAL_TYPES"
  by (simp add: PROPOSAL_TYPES_def)

lemma all_types_selected:
  assumes "set selectedTypes = set PROPOSAL_TYPES"
  shows "filter (\<lambda>t. t \<in> set selectedTypes) SHOWCASE_ORDER = SHOWCASE_ORDER"
    and "length (remdups selectedTypes) = length PROPOSAL_TYPES"
proof -
  have "\<forall>t\<in>set SHOWCASE_ORDER. t \<in> set PROPOSAL_TYPES"
    by (simp add: PROPOSAL_TYPES_def SHOWCASE_ORDER_def)
  then show "filter (\<lambda>t. t \<in> set selectedTypes) SHOWCASE_ORDER = SHOWCASE_ORDER"
    unfolding assms by (simp add: filter_id_conv)
  have "length (remdups selectedTypes) = card (set selectedTypes)"
    by (rule length_remdups_card_conv)
  also have "\<dots> = card (set PROPOSAL_TYPES)"
    by (simp only: assms)
  also have "\<dots> = length PROPOSAL_TYPES"
    by (rule distinct_card) (rule distinct_PROPOSAL_TYPES)
  finally show "length (remdups selectedTypes) = length PROPOSAL_TYPES" .
qed

lemma filteredActions_all:
  fixes xs :: "'a GovernanceAction_scheme list"
  assumes "set selectedTypes = set PROPOSAL_TYPES"
      and "trim searchQuery = []"
      and "a \<in> set xs" and "status a \<in> set selectedStatuses"
      and "type a \<in> set SHOWCASE_ORDER"
  shows "filteredActions trim toLowerCase xs selectedTypes selectedStatuses searchQuery
           = representatives (filter (\<lambda>a. status a \<in> set selectedStatuses) xs)
             @ filter (\<lambda>a. type a \<notin> set SHOWCASE_ORDER)
                 (filter (\<lambda>a. status a \<in> set selectedStatuses) xs)"
proof -
  let ?sf = "filter (\<lambda>action. status action \<in> set selectedStatuses) xs"
  from assms(3) have ne: "xs \<noteq> []" by auto
  have dd: "map the (filter (\<lambda>found. found \<noteq> None)
               (map (\<lambda>t. find (\<lambda>action. type action = t) ?sf) SHOWCASE_ORDER))
          = representatives ?sf"
    by (simp only: deduped_concat representatives_def firstOfType_def [abs_def])
  from assms(3,4) have "a \<in> set ?sf" by simp
  from this assms(5) have rn: "representatives ?sf \<noteq> []" by (rule representatives_nonempty)
  have blank: "applySearch trim toLowerCase searchQuery list = list" for list :: "'a GovernanceAction_scheme list"
    using assms(2) by (simp add: applySearch_def)
  show ?thesis
    unfolding filteredActions_def
    by (simp only: ne all_types_selected [OF assms(1)] dd rn Let_def if_True if_False
          not_False_eq_True blank simp_thms)
qed

text \<open>
  Claim C3, with the actions the code keeps. Let all proposal types be selected, in any
  order and with any repetition, let the search query trim to the empty string (as the
  empty query does), and let at least one action with a selected status have a showcase
  type. Then the output is built from the sorted actions with a selected status (all the
  sorted actions, when every status that occurs is selected): one representative for each
  showcase type that occurs among them, in showcase order, each the first action of its
  type in sorted order; followed by those of them whose type is outside the showcase list,
  in the sorted (epoch-descending) order. Every entry is an action of the input, and the
  output has no duplicates when the input has none. The other actions of showcase types
  are left out.
\<close>

theorem filteredActions_all_selected:
  fixes actions :: "'a GovernanceAction_scheme list"
    and trim toLowerCase :: "string \<Rightarrow> string"
    and selectedTypes selectedStatuses :: "string list"
    and searchQuery :: string
  assumes "set selectedTypes = set PROPOSAL_TYPES"
      and "trim searchQuery = []"
      and "\<exists>a\<in>set actions. status a \<in> set selectedStatuses \<and> type a \<in> set SHOWCASE_ORDER"
  defines "shown \<equiv> filter (\<lambda>a. status a \<in> set selectedStatuses) (sortedActions actions)"
  defines "out \<equiv> filteredActions trim toLowerCase (sortedActions actions)
                    selectedTypes selectedStatuses searchQuery"
  shows "out = representatives shown @ filter (\<lambda>a. type a \<notin> set SHOWCASE_ORDER) shown
       \<and> map type (representatives shown)
           = filter (\<lambda>t. t \<in> type ` set shown) SHOWCASE_ORDER
       \<and> (\<forall>r\<in>set (representatives shown). find (\<lambda>a. type a = type r) shown = Some r)
       \<and> sorted_wrt inEpochOrder (filter (\<lambda>a. type a \<notin> set SHOWCASE_ORDER) shown)
       \<and> set out \<subseteq> set actions
       \<and> (distinct actions \<longrightarrow> distinct out)
       \<and> ((\<forall>a\<in>set actions. status a \<in> set selectedStatuses) \<longrightarrow>
            shown = sortedActions actions)"
proof -
  have set_sorted: "set (sortedActions actions) = set actions"
    using sortedActions_perm [of actions] by (rule mset_eq_setD)
  from assms(3) obtain a where a: "a \<in> set (sortedActions actions)"
      "status a \<in> set selectedStatuses" "type a \<in> set SHOWCASE_ORDER"
    unfolding set_sorted by blast
  have out: "out = representatives shown @ filter (\<lambda>a. type a \<notin> set SHOWCASE_ORDER) shown"
    unfolding out_def shown_def
    using filteredActions_all [where trim = trim and searchQuery = searchQuery
        and selectedTypes = selectedTypes and selectedStatuses = selectedStatuses
        and toLowerCase = toLowerCase and xs = "sortedActions actions" and a = a]
      assms(1,2) a
    by blast
  have types: "map type (representatives shown)
                 = filter (\<lambda>t. t \<in> type ` set shown) SHOWCASE_ORDER"
    by (rule map_type_representatives)
  have first: "\<forall>r\<in>set (representatives shown). find (\<lambda>a. type a = type r) shown = Some r"
    using representative_first by blast
  have "sorted_wrt inEpochOrder shown"
    unfolding shown_def by (rule sorted_wrt_filter) (rule sortedActions_sorted)
  then have ord: "sorted_wrt inEpochOrder (filter (\<lambda>a. type a \<notin> set SHOWCASE_ORDER) shown)"
    by (rule sorted_wrt_filter)
  have shown_sub: "set shown \<subseteq> set actions"
    unfolding shown_def by (auto simp: set_sorted)
  have sub: "set out \<subseteq> set actions"
    using representative_first [of _ shown] shown_sub by (auto simp: out)
  have dist: "distinct out" if "distinct actions"
  proof -
    from that have "distinct (sortedActions actions)"
      using sortedActions_perm [of actions] by (metis mset_eq_imp_distinct_iff)
    then have "distinct shown" unfolding shown_def by simp
    then have "distinct (filter (\<lambda>a. type a \<notin> set SHOWCASE_ORDER) shown)" by simp
    moreover have "set (representatives shown)
                   \<inter> set (filter (\<lambda>a. type a \<notin> set SHOWCASE_ORDER) shown) = {}"
      using representative_first [of _ shown] by auto
    ultimately show ?thesis by (simp add: out distinct_representatives)
  qed
  have all: "shown = sortedActions actions"
    if "\<forall>a\<in>set actions. status a \<in> set selectedStatuses"
    unfolding shown_def using that by (simp add: set_sorted filter_id_conv)
  from out types first ord sub dist all show ?thesis by blast
qed

lemmas actions_eval =
  sortedActions_def compareActions_def orElse_def exampleActions_def mixedActions_def
  exampleAction_def Let_def

lemma sorted_mixedActions:
  "sortedActions mixedActions
     = [exampleAction\<lparr>title := ''B10'', type := ''InfoAction'', submissionEpoch := Some 10\<rparr>,
        exampleAction\<lparr>title := ''O7'', type := ''Other'', submissionEpoch := Some 7\<rparr>,
        exampleAction\<lparr>title := ''A5'', type := ''Treasury'', submissionEpoch := Some 5\<rparr>,
        exampleAction\<lparr>title := ''O3'', type := ''Other'', submissionEpoch := Some 3\<rparr>,
        exampleAction\<lparr>title := ''A1'', type := ''Treasury'', submissionEpoch := Some 1\<rparr>]"
  by (simp add: actions_eval)

theorem filteredActions_all_selected_witness:
  "set reorderedTypes = set PROPOSAL_TYPES
   \<and> asciiTrim [] = []
   \<and> list_ex (\<lambda>a. status a \<in> set STATUS_OPTIONS \<and> type a \<in> set SHOWCASE_ORDER) mixedActions
   \<and> map title (filteredActions asciiTrim asciiLowerCase (sortedActions mixedActions)
                   reorderedTypes STATUS_OPTIONS [])
       = [''A5'', ''B10'', ''O7'', ''O3'']"
proof -
  have sel: "set reorderedTypes = set PROPOSAL_TYPES"
    by (auto simp: reorderedTypes_def PROPOSAL_TYPES_def)
  have blank: "asciiTrim [] = []"
    by (simp add: asciiTrim_def)
  have ty: "\<exists>a\<in>set mixedActions. status a \<in> set STATUS_OPTIONS \<and> type a \<in> set SHOWCASE_ORDER"
    by (simp add: mixedActions_def exampleActions_def exampleAction_def STATUS_OPTIONS_def
          SHOWCASE_ORDER_def)
  from filteredActions_all_selected [where selectedTypes = reorderedTypes
      and trim = asciiTrim and searchQuery = "[]" and actions = mixedActions
      and selectedStatuses = STATUS_OPTIONS and toLowerCase = asciiLowerCase] sel blank ty
  have "filteredActions asciiTrim asciiLowerCase (sortedActions mixedActions)
          reorderedTypes STATUS_OPTIONS []
          = representatives (filter (\<lambda>a. status a \<in> set STATUS_OPTIONS) (sortedActions mixedActions))
            @ filter (\<lambda>a. type a \<notin> set SHOWCASE_ORDER)
                (filter (\<lambda>a. status a \<in> set STATUS_OPTIONS) (sortedActions mixedActions))"
    by blast
  then have "map title (filteredActions asciiTrim asciiLowerCase (sortedActions mixedActions)
                   reorderedTypes STATUS_OPTIONS [])
       = [''A5'', ''B10'', ''O7'', ''O3'']"
    unfolding sorted_mixedActions
    by (simp add: representatives_def firstOfType_def SHOWCASE_ORDER_def STATUS_OPTIONS_def
          exampleAction_def)
  with sel blank ty show ?thesis by (simp add: list_ex_iff)
qed

text \<open>
  The claim as stated fails: of two Treasury actions only the first in sort order is shown;
  the other one is dropped.
\<close>

theorem filteredActions_drops_counterexample:
  "map title (sortedActions exampleActions) = [''B10'', ''A5'', ''A1'']
   \<and> map title (filteredActions asciiTrim asciiLowerCase (sortedActions exampleActions)
                   PROPOSAL_TYPES STATUS_OPTIONS [])
       = [''A5'', ''B10'']"
proof -
  have s: "sortedActions exampleActions
     = [exampleAction\<lparr>title := ''B10'', type := ''InfoAction'', submissionEpoch := Some 10\<rparr>,
        exampleAction\<lparr>title := ''A5'', type := ''Treasury'', submissionEpoch := Some 5\<rparr>,
        exampleAction\<lparr>title := ''A1'', type := ''Treasury'', submissionEpoch := Some 1\<rparr>]"
    by (simp add: actions_eval)
  show ?thesis
    unfolding s
    by (simp add: filteredActions_def applySearch_def asciiTrim_def SHOWCASE_ORDER_def
          PROPOSAL_TYPES_def STATUS_OPTIONS_def exampleAction_def Let_def)
qed

end
